theory Spec2Isabelle
  imports Main
begin

section \<open>Values of the Go program\<close>

text \<open>
  The library is \<^verbatim>\<open>libdepot/libdepot.go\<close>. A Go \<^verbatim>\<open>string\<close> is an immutable sequence
  of bytes and a \<^verbatim>\<open>[]byte\<close> a mutable one; the conversions \<^verbatim>\<open>[]byte(val)\<close> and
  \<^verbatim>\<open>string(plaintext)\<close> copy the bytes unchanged, so both are lists of 8-bit characters here
  and the conversions are the identity. A \<^verbatim>\<open>[]byte\<close> that may be \<^verbatim>\<open>nil\<close> (the password
  argument, the scanned nonce column) is a \<open>bytes option\<close>: \<open>None\<close> is \<^verbatim>\<open>nil\<close>, and
  \<open>Some []\<close> is the empty slice that is not \<^verbatim>\<open>nil\<close>.
\<close>

type_synonym bytes = "char list"

fun bytes_of :: "bytes option \<Rightarrow> bytes" where
  "bytes_of None = []"
| "bytes_of (Some b) = b"

text \<open>
  Errors are values. The three sentinels of the package come first; the others are the
  errors of the packages it calls (\<^verbatim>\<open>database/sql\<close>, the sqlite3 driver,
  \<^verbatim>\<open>encoding/base64\<close>, \<^verbatim>\<open>crypto/aes\<close>, \<^verbatim>\<open>io\<close> with its \<^verbatim>\<open>io.EOF\<close> and
  \<^verbatim>\<open>io.ErrUnexpectedEOF\<close>, and the random source, whose read error is \<open>ReadError\<close>).
  \<open>Errorf m e\<close> is
  \<^verbatim>\<open>fmt.Errorf(m + ": %w", e)\<close>, an error that wraps \<open>e\<close>. The byte offset that a
  \<^verbatim>\<open>base64.CorruptInputError\<close> carries is left out.
\<close>

datatype error =
    ErrNotFound
  | ErrBadPassword
  | ErrPasswordNeeded
  | ErrNoRows
  | NoSuchTable string
  | UniqueConstraintFailed string
  | CorruptInputError
  | KeySizeError nat
  | EOF
  | ErrUnexpectedEOF
  | ReadError
  | Errorf string error

text \<open>\<^verbatim>\<open>errors.Is(err, target)\<close>: \<open>target\<close> occurs in the chain of wrapped errors.\<close>

fun errors_Is :: "error \<Rightarrow> error \<Rightarrow> bool" where
  "errors_Is (Errorf m e) target = (Errorf m e = target \<or> errors_Is e target)"
| "errors_Is e target = (e = target)"

text \<open>
  A call either returns to its caller or panics. A panic is not an error value: nothing
  wraps it and no caller in this program recovers from it, so a function that calls a
  panicking function panics with it.
\<close>

datatype 'a outcome =
    Returns 'a
  | Panics string

section \<open>\<^verbatim>\<open>b64 = base64.StdEncoding\<close>\<close>

text \<open>
  The standard alphabet with padding (RFC 4648, section 4). The encoder packs three bytes
  into a 24-bit value and emits its four 6-bit digits; one or two remaining bytes are
  packed with zero bits and padded with \<^verbatim>\<open>=\<close>. The decoder ignores carriage returns and
  line feeds, wants complete padded quanta, rejects anything after the padding, and does
  not check the unused low bits of a padded quantum (the encoding is not strict).
\<close>

definition encodeStd :: string where
  "encodeStd = ''ABCDEFGHIJKLMNOPQRSTUVWXYZabcdefghijklmnopqrstuvwxyz0123456789+/''"

definition padChar :: char where
  "padChar = CHR ''=''"

definition quantum :: "char \<Rightarrow> char \<Rightarrow> char \<Rightarrow> nat" where
  "quantum a b c = of_char a * 65536 + of_char b * 256 + of_char c"

definition sextet :: "nat \<Rightarrow> nat \<Rightarrow> nat" where
  "sextet v sh = (v div 2 ^ sh) mod 64"

definition encode :: "nat \<Rightarrow> char" where
  "encode i = encodeStd ! i"

fun EncodeToString :: "bytes \<Rightarrow> string" where
  "EncodeToString (a # b # c # src) =
     (let v = quantum a b c
      in encode (sextet v 18) # encode (sextet v 12) # encode (sextet v 6) # encode (sextet v 0)
         # EncodeToString src)"
| "EncodeToString [a, b] =
     (let v = quantum a b (CHR 0x00)
      in [encode (sextet v 18), encode (sextet v 12), encode (sextet v 6), padChar])"
| "EncodeToString [a] =
     (let v = quantum a (CHR 0x00) (CHR 0x00)
      in [encode (sextet v 18), encode (sextet v 12), padChar, padChar])"
| "EncodeToString [] = []"

fun index_of :: "char \<Rightarrow> string \<Rightarrow> nat option" where
  "index_of c [] = None"
| "index_of c (x # xs) = (if c = x then Some 0 else map_option Suc (index_of c xs))"

definition decodeMap :: "char \<Rightarrow> nat option" where
  "decodeMap c = index_of c encodeStd"

definition assemble :: "nat \<Rightarrow> nat \<Rightarrow> nat \<Rightarrow> nat \<Rightarrow> nat" where
  "assemble x y z w = x * 262144 + y * 4096 + z * 64 + w"

fun decodeQuanta :: "string \<Rightarrow> error + bytes" where
  "decodeQuanta [] = Inr []"
| "decodeQuanta (a # b # c # d # src) =
     (case (decodeMap a, decodeMap b) of
        (Some x, Some y) \<Rightarrow>
          (case decodeMap c of
             None \<Rightarrow>
               if c = padChar \<and> d = padChar \<and> src = []
               then Inr [char_of (assemble x y 0 0 div 65536)]
               else Inl CorruptInputError
           | Some z \<Rightarrow>
               (case decodeMap d of
                  None \<Rightarrow>
                    if d = padChar \<and> src = []
                    then Inr [char_of (assemble x y z 0 div 65536),
                              char_of (assemble x y z 0 div 256)]
                    else Inl CorruptInputError
                | Some w \<Rightarrow>
                    (case decodeQuanta src of
                       Inl err \<Rightarrow> Inl err
                     | Inr dst \<Rightarrow>
                         Inr (char_of (assemble x y z w div 65536)
                              # char_of (assemble x y z w div 256)
                              # char_of (assemble x y z w) # dst))))
      | _ \<Rightarrow> Inl CorruptInputError)"
| "decodeQuanta _ = Inl CorruptInputError"

definition DecodeString :: "string \<Rightarrow> error + bytes" where
  "DecodeString s = decodeQuanta (filter (\<lambda>c. c \<noteq> CHR 0x0A \<and> c \<noteq> CHR 0x0D) s)"

section \<open>The libraries the package calls\<close>

text \<open>
  SHA-1, the rounds of PBKDF2 and the arithmetic of AES-GCM are not code of this
  repository; they are parameters. \<open>sha1_Sum cr m\<close> is the SHA-1 digest of \<open>m\<close>;
  \<open>hmac_pbkdf2 cr block salt iter keyLen\<close> is what \<^verbatim>\<open>pbkdf2.Key\<close> computes from the
  HMAC keyed with the 64-byte key block \<open>block\<close>; \<open>gcm_Seal cr k n d\<close> is
  \<^verbatim>\<open>aesgcm.Seal(nil, n, d, nil)\<close> for the cipher built from key \<open>k\<close> with a nonce \<open>n\<close> of
  12 bytes; \<open>gcm_Open cr k n c\<close> is the result of \<^verbatim>\<open>aesgcm.Open(nil, n, c, nil)\<close> with
  a nonce of 12 bytes, \<open>None\<close> when it returns an error. What each theorem needs of them
  is a hypothesis of that theorem.
\<close>

record crypto =
  sha1_Sum :: "bytes \<Rightarrow> bytes"
  hmac_pbkdf2 :: "bytes \<Rightarrow> bytes \<Rightarrow> nat \<Rightarrow> nat \<Rightarrow> bytes"
  gcm_Seal :: "bytes \<Rightarrow> bytes \<Rightarrow> bytes \<Rightarrow> bytes"
  gcm_Open :: "bytes \<Rightarrow> bytes \<Rightarrow> bytes \<Rightarrow> bytes option"

text \<open>
  \<^verbatim>\<open>pbkdf2.Key(password, salt, iter, keyLen, sha1.New)\<close> begins with
  \<^verbatim>\<open>hmac.New(sha1.New, password)\<close> and reads the password nowhere else. \<^verbatim>\<open>hmac.New\<close>
  replaces a key longer than the block of 64 bytes by its digest and copies the key into a
  block of 64 zero bytes (RFC 2104). A \<^verbatim>\<open>nil\<close> password and the empty one give the same
  block.
\<close>

definition hmac_New :: "crypto \<Rightarrow> bytes \<Rightarrow> bytes" where
  "hmac_New cr k =
     (let k' = (if length k > 64 then sha1_Sum cr k else k)
      in take 64 (k' @ replicate (64 - length k') (CHR 0x00)))"

definition pbkdf2_Key :: "crypto \<Rightarrow> bytes \<Rightarrow> bytes \<Rightarrow> nat \<Rightarrow> nat \<Rightarrow> bytes" where
  "pbkdf2_Key cr password slt iter keyLen = hmac_pbkdf2 cr (hmac_New cr password) slt iter keyLen"

text \<open>
  What a call reads from outside the program: \<open>rand_Reader w n\<close> is what \<^verbatim>\<open>rand.Reader\<close>
  delivers when asked for \<open>n\<close> bytes (\<open>None\<close>: the read fails), and \<open>now w\<close> is the
  database's \<^verbatim>\<open>strftime('%s', 'now')\<close>.
\<close>

record world =
  rand_Reader :: "nat \<Rightarrow> bytes option"
  now :: int

text \<open>
  \<^verbatim>\<open>io.ReadFull\<close> into a buffer of \<open>n\<close> bytes: exactly \<open>n\<close> bytes or an error, which is
  \<^verbatim>\<open>io.EOF\<close> when the source ended before the first byte and \<^verbatim>\<open>io.ErrUnexpectedEOF\<close>
  when it ended after some.
\<close>

definition ReadFull :: "(nat \<Rightarrow> bytes option) \<Rightarrow> nat \<Rightarrow> error + bytes" where
  "ReadFull rd n =
     (case rd n of
        None \<Rightarrow> Inl ReadError
      | Some buf \<Rightarrow>
          if length buf = n then Inr buf
          else if buf = [] then Inl EOF
          else Inl ErrUnexpectedEOF)"

text \<open>
  \<^verbatim>\<open>aes.NewCipher\<close> accepts keys of 16, 24 or 32 bytes; \<^verbatim>\<open>cipher.NewGCM\<close> accepts every
  cipher with a 128-bit block, so every AES cipher. The cipher is represented by its key.
\<close>

definition aes_NewCipher :: "bytes \<Rightarrow> error + bytes" where
  "aes_NewCipher k =
     (if length k = 16 \<or> length k = 24 \<or> length k = 32 then Inr k
      else Inl (KeySizeError (length k)))"

definition cipher_NewGCM :: "bytes \<Rightarrow> error + bytes" where
  "cipher_NewGCM block = Inr block"

text \<open>
  \<^verbatim>\<open>aesgcm.Open\<close> panics when the nonce is not of the 12 bytes of the standard nonce
  size, before it looks at the ciphertext. \<^verbatim>\<open>aesgcm.Seal\<close> does the same, but
  \<^verbatim>\<open>encrypt\<close> calls it only with the 12 bytes that \<^verbatim>\<open>io.ReadFull\<close> has returned.
\<close>

definition aesgcm_Open :: "crypto \<Rightarrow> bytes \<Rightarrow> bytes \<Rightarrow> bytes \<Rightarrow> bytes option outcome" where
  "aesgcm_Open cr aesgcm n ciphertext =
     (if length n \<noteq> 12 then Panics ''crypto/cipher: incorrect nonce length given to GCM''
      else Returns (gcm_Open cr aesgcm n ciphertext))"

section \<open>The database\<close>

text \<open>
  The schema that \<^verbatim>\<open>init\<close> writes: table \<^verbatim>\<open>storage\<close> with the columns
  \<^verbatim>\<open>modified\<close>, \<^verbatim>\<open>key\<close> (unique, not null), \<^verbatim>\<open>val\<close> (not null) and \<^verbatim>\<open>nonce\<close>
  (unique, nullable: \<open>None\<close> is SQL NULL), and table \<^verbatim>\<open>salt\<close> with the column
  \<^verbatim>\<open>data\<close>. A table is the list of its rows in insertion order, and \<open>None\<close> when the
  table does not exist. A statement fails when its table is missing or when it would break
  a uniqueness constraint, and then changes nothing; faults of the storage medium are not
  part of the model.
\<close>

record row =
  modified :: int
  key :: string
  val :: string
  nonce :: "bytes option"

record database =
  tbl_storage :: "row list option"
  tbl_salt :: "bytes list option"

text \<open>\<^verbatim>\<open>create table if not exists storage (...); create table if not exists salt (...)\<close>\<close>

definition init :: "database \<Rightarrow> error + database" where
  "init db =
     Inr \<lparr>tbl_storage = Some (case tbl_storage db of None \<Rightarrow> [] | Some rs \<Rightarrow> rs),
          tbl_salt = Some (case tbl_salt db of None \<Rightarrow> [] | Some ss \<Rightarrow> ss)\<rparr>"

text \<open>\<^verbatim>\<open>QueryRow("select data from salt").Scan(&db.salt)\<close>: the first row.\<close>

definition select_salt :: "database \<Rightarrow> error + bytes" where
  "select_salt db =
     (case tbl_salt db of
        None \<Rightarrow> Inl (NoSuchTable ''salt'')
      | Some [] \<Rightarrow> Inl ErrNoRows
      | Some (s # ss) \<Rightarrow> Inr s)"

text \<open>\<^verbatim>\<open>insert into salt (data) values (?)\<close>\<close>

definition insert_salt :: "database \<Rightarrow> bytes \<Rightarrow> error + database" where
  "insert_salt db s =
     (case tbl_salt db of
        None \<Rightarrow> Inl (NoSuchTable ''salt'')
      | Some ss \<Rightarrow> Inr (db\<lparr>tbl_salt := Some (ss @ [s])\<rparr>))"

text \<open>
  \<^verbatim>\<open>insert into storage (key, val, nonce) values (?, ?, ?) on conflict (key) do update set
  modified = (strftime('%s', 'now')), val = ?, nonce = ?\<close>, with the same value and nonce
  bound twice. The row with this key is rewritten where it stands, or a new row is added.
  The statement fails when another key already holds the same nonce (NULLs never collide).
\<close>

definition nonce_taken :: "row list \<Rightarrow> string \<Rightarrow> bytes option \<Rightarrow> bool" where
  "nonce_taken rs k n =
     (case n of
        None \<Rightarrow> False
      | Some x \<Rightarrow> list_ex (\<lambda>r. key r \<noteq> k \<and> nonce r = Some x) rs)"

definition upsert_rows :: "int \<Rightarrow> string \<Rightarrow> string \<Rightarrow> bytes option \<Rightarrow> row list \<Rightarrow> row list" where
  "upsert_rows t k v n rs =
     (if list_ex (\<lambda>r. key r = k) rs
      then map (\<lambda>r. if key r = k then r\<lparr>modified := t, val := v, nonce := n\<rparr> else r) rs
      else rs @ [\<lparr>modified = t, key = k, val = v, nonce = n\<rparr>])"

definition upsert :: "int \<Rightarrow> database \<Rightarrow> string \<Rightarrow> string \<Rightarrow> bytes option \<Rightarrow> error + database" where
  "upsert t db k v n =
     (case tbl_storage db of
        None \<Rightarrow> Inl (NoSuchTable ''storage'')
      | Some rs \<Rightarrow>
          if nonce_taken rs k n then Inl (UniqueConstraintFailed ''storage.nonce'')
          else Inr (db\<lparr>tbl_storage := Some (upsert_rows t k v n rs)\<rparr>))"

text \<open>\<^verbatim>\<open>QueryRow("select val, nonce from storage where key = ?", key).Scan(&val, &nonce)\<close>\<close>

definition select_val_nonce :: "database \<Rightarrow> string \<Rightarrow> error + (string \<times> bytes option)" where
  "select_val_nonce db k =
     (case tbl_storage db of
        None \<Rightarrow> Inl (NoSuchTable ''storage'')
      | Some rs \<Rightarrow>
          (case find (\<lambda>r. key r = k) rs of
             None \<Rightarrow> Inl ErrNoRows
           | Some r \<Rightarrow> Inr (val r, nonce r)))"

text \<open>\<^verbatim>\<open>delete from storage where key = ?\<close>\<close>

definition delete_key :: "database \<Rightarrow> string \<Rightarrow> error + database" where
  "delete_key db k =
     (case tbl_storage db of
        None \<Rightarrow> Inl (NoSuchTable ''storage'')
      | Some rs \<Rightarrow> Inr (db\<lparr>tbl_storage := Some (filter (\<lambda>r. key r \<noteq> k) rs)\<rparr>))"

section \<open>The package \<^verbatim>\<open>libdepot\<close>\<close>

text \<open>
  \<^verbatim>\<open>type Depot struct { *sql.DB; salt []byte }\<close>. The connection stands for the database
  it is connected to: an operation that writes returns the depot with the database as the
  statement left it, and \<open>Inl\<close> when it returns an error, the database then being as
  before.
\<close>

record Depot =
  conn :: database
  salt :: bytes

text \<open>
  \<^verbatim>\<open>NewDepot\<close>. \<^verbatim>\<open>sql.Open\<close> with a registered driver returns no error, so that branch
  has no counterpart. When the salt cannot be read, the schema is written unless the
  error is \<^verbatim>\<open>sql.ErrNoRows\<close>, then a salt of 32 random bytes is inserted.
\<close>

definition NewDepot :: "world \<Rightarrow> database \<Rightarrow> error + Depot" where
  "NewDepot w db0 =
     (case select_salt db0 of
        Inr s \<Rightarrow> Inr \<lparr>conn = db0, salt = s\<rparr>
      | Inl err \<Rightarrow>
          (case (if \<not> errors_Is err ErrNoRows then init db0 else Inr db0) of
             Inl err1 \<Rightarrow> Inl (Errorf ''cannot access database'' err1)
           | Inr db1 \<Rightarrow>
               (case ReadFull (rand_Reader w) 32 of
                  Inl err2 \<Rightarrow> Inl (Errorf ''cannot generate random salt'' err2)
                | Inr s \<Rightarrow>
                    (case insert_salt db1 s of
                       Inl err3 \<Rightarrow> Inl (Errorf ''cannot access database'' err3)
                     | Inr db2 \<Rightarrow> Inr \<lparr>conn = db2, salt = s\<rparr>))))"

definition encrypt :: "crypto \<Rightarrow> world \<Rightarrow> bytes \<Rightarrow> bytes \<Rightarrow> bytes \<Rightarrow> error + (bytes \<times> bytes)" where
  "encrypt cr w password slt data =
     (let encryptionKey = pbkdf2_Key cr password slt 4096 32 in
      case aes_NewCipher encryptionKey of
        Inl err \<Rightarrow> Inl err
      | Inr block \<Rightarrow>
          (case ReadFull (rand_Reader w) 12 of
             Inl err \<Rightarrow> Inl err
           | Inr n \<Rightarrow>
               (case cipher_NewGCM block of
                  Inl err \<Rightarrow> Inl err
                | Inr aesgcm \<Rightarrow> Inr (gcm_Seal cr aesgcm n data, n))))"

definition decrypt :: "crypto \<Rightarrow> bytes \<Rightarrow> bytes \<Rightarrow> bytes \<Rightarrow> bytes \<Rightarrow> (error + bytes) outcome" where
  "decrypt cr password slt n data =
     (let encryptionKey = pbkdf2_Key cr password slt 4096 32 in
      case aes_NewCipher encryptionKey of
        Inl err \<Rightarrow> Returns (Inl err)
      | Inr block \<Rightarrow>
          (case cipher_NewGCM block of
             Inl err \<Rightarrow> Returns (Inl err)
           | Inr aesgcm \<Rightarrow>
               (case aesgcm_Open cr aesgcm n data of
                  Panics m \<Rightarrow> Panics m
                | Returns None \<Rightarrow> Returns (Inl ErrBadPassword)
                | Returns (Some plaintext) \<Rightarrow> Returns (Inr plaintext))))"

definition Stow :: "crypto \<Rightarrow> world \<Rightarrow> Depot \<Rightarrow> string \<Rightarrow> string \<Rightarrow> bytes option \<Rightarrow> error + Depot" where
  "Stow cr w db k v password =
     (case password of
        None \<Rightarrow>
          (case upsert (now w) (conn db) k v None of
             Inl err \<Rightarrow> Inl (Errorf ''cannot access database'' err)
           | Inr c \<Rightarrow> Inr (db\<lparr>conn := c\<rparr>))
      | Some pw \<Rightarrow>
          (case encrypt cr w pw (salt db) v of
             Inl err \<Rightarrow> Inl (Errorf ''cannot encrypt data'' err)
           | Inr (ciphertext, n) \<Rightarrow>
               (let cval = EncodeToString ciphertext in
                case upsert (now w) (conn db) k cval (Some n) of
                  Inl err \<Rightarrow> Inl (Errorf ''cannot access database'' err)
                | Inr c \<Rightarrow> Inr (db\<lparr>conn := c\<rparr>))))"

text \<open>
  \<^verbatim>\<open>Fetch\<close>, as the revision of the file that declares \<^verbatim>\<open>ErrPasswordNeeded\<close> has it.
  It returns a value or an error, or panics when \<^verbatim>\<open>decrypt\<close> does.
\<close>

definition Fetch :: "crypto \<Rightarrow> Depot \<Rightarrow> string \<Rightarrow> bytes option \<Rightarrow> (error + string) outcome" where
  "Fetch cr db k password =
     (case select_val_nonce (conn db) k of
        Inl err \<Rightarrow>
          if errors_Is err ErrNoRows then Returns (Inl ErrNotFound)
          else Returns (Inl (Errorf ''cannot access database'' err))
      | Inr (v, n) \<Rightarrow>
          (case n of
             None \<Rightarrow> Returns (Inr v)
           | Some nb \<Rightarrow>
               if password = None then Returns (Inl ErrPasswordNeeded)
               else
                 (case DecodeString v of
                    Inl err \<Rightarrow> Returns (Inl (Errorf ''cannot decrypt data'' err))
                  | Inr valbytes \<Rightarrow>
                      (case decrypt cr (bytes_of password) (salt db) nb valbytes of
                         Panics m \<Rightarrow> Panics m
                       | Returns (Inl err) \<Rightarrow> Returns (Inl (Errorf ''cannot decrypt data'' err))
                       | Returns (Inr plaintext) \<Rightarrow> Returns (Inr plaintext)))))"

text \<open>
  The other revision of \<^verbatim>\<open>Fetch\<close> in the file, without the check for a missing
  password: a \<^verbatim>\<open>nil\<close> password reaches \<^verbatim>\<open>decrypt\<close>, where the key derivation reads it
  as the empty password.
\<close>

definition Fetch_r1 :: "crypto \<Rightarrow> Depot \<Rightarrow> string \<Rightarrow> bytes option \<Rightarrow> (error + string) outcome" where
  "Fetch_r1 cr db k password =
     (case select_val_nonce (conn db) k of
        Inl err \<Rightarrow>
          if errors_Is err ErrNoRows then Returns (Inl ErrNotFound)
          else Returns (Inl (Errorf ''cannot access database'' err))
      | Inr (v, n) \<Rightarrow>
          (case n of
             None \<Rightarrow> Returns (Inr v)
           | Some nb \<Rightarrow>
               (case DecodeString v of
                  Inl err \<Rightarrow> Returns (Inl (Errorf ''cannot decrypt data'' err))
                | Inr valbytes \<Rightarrow>
                    (case decrypt cr (bytes_of password) (salt db) nb valbytes of
                       Panics m \<Rightarrow> Panics m
                     | Returns (Inl err) \<Rightarrow> Returns (Inl (Errorf ''cannot decrypt data'' err))
                     | Returns (Inr plaintext) \<Rightarrow> Returns (Inr plaintext)))))"

definition Drop :: "Depot \<Rightarrow> string \<Rightarrow> error + Depot" where
  "Drop db k =
     (case delete_key (conn db) k of
        Inl err \<Rightarrow> Inl (Errorf ''cannot access database'' err)
      | Inr c \<Rightarrow> Inr (db\<lparr>conn := c\<rparr>))"

text \<open>
  \<^verbatim>\<open>Peek\<close> ignores the error of the query: \<^verbatim>\<open>data\<close> and \<^verbatim>\<open>nonce\<close> keep their zero
  values when no row was scanned.
\<close>

definition Peek :: "Depot \<Rightarrow> string \<Rightarrow> string" where
  "Peek db k =
     (case select_val_nonce (conn db) k of
        Inl err \<Rightarrow> ''''
      | Inr (data, n) \<Rightarrow> if n \<noteq> None then '''' else data)"

text \<open>The stored row of a key, for statements about the state of the table.\<close>

definition lookup :: "Depot \<Rightarrow> string \<Rightarrow> row option" where
  "lookup db k =
     (case tbl_storage (conn db) of
        None \<Rightarrow> None
      | Some rs \<Rightarrow> find (\<lambda>r. key r = k) rs)"

text \<open>
  Sequences of calls on one open depot. A call that returns an error leaves the depot as
  it was.
\<close>

datatype call =
    CallStow world string string "bytes option"
  | CallDrop string

fun perform :: "crypto \<Rightarrow> Depot \<Rightarrow> call \<Rightarrow> Depot" where
  "perform cr db (CallStow w k v password) =
     (case Stow cr w db k v password of Inl err \<Rightarrow> db | Inr db' \<Rightarrow> db')"
| "perform cr db (CallDrop k) =
     (case Drop db k of Inl err \<Rightarrow> db | Inr db' \<Rightarrow> db')"

definition perform_all :: "crypto \<Rightarrow> Depot \<Rightarrow> call list \<Rightarrow> Depot" where
  "perform_all cr db cs = foldl (perform cr) db cs"

section \<open>What the theorems assume of the libraries\<close>

text \<open>
  \<open>kdf_sized\<close>: \<^verbatim>\<open>pbkdf2.Key\<close> returns \<^verbatim>\<open>keyLen\<close> bytes. \<open>aead_correct\<close>: with a nonce of
  12 bytes, \<^verbatim>\<open>Open\<close> under the key and nonce of \<^verbatim>\<open>Seal\<close> returns the plaintext. Both
  are true of the libraries. Nothing is assumed of \<^verbatim>\<open>Open\<close> under another key.
\<close>

definition kdf_sized :: "crypto \<Rightarrow> bool" where
  "kdf_sized cr \<longleftrightarrow> (\<forall>b s i l. length (hmac_pbkdf2 cr b s i l) = l)"

definition aead_correct :: "crypto \<Rightarrow> bool" where
  "aead_correct cr \<longleftrightarrow>
     (\<forall>k n d. length n = 12 \<longrightarrow> gcm_Open cr k n (gcm_Seal cr k n d) = Some d)"

text \<open>
  An instance of the interface on which the operations can be evaluated: the digest is
  the first 20 bytes, the key is the key block and the salt cut or zero-filled to length,
  and sealing writes key and nonce in front of the data.
\<close>

definition plain_crypto :: crypto where
  "plain_crypto =
     \<lparr>sha1_Sum = (\<lambda>m. take 20 (m @ replicate 20 (CHR 0x00))),
      hmac_pbkdf2 = (\<lambda>b s i l. take l (b @ s @ replicate l (CHR 0x00))),
      gcm_Seal = (\<lambda>k n d. k @ n @ d),
      gcm_Open = (\<lambda>k n c. if take (length k + length n) c = k @ n
                           then Some (drop (length k + length n) c) else None)\<rparr>"

definition fixed_world :: world where
  "fixed_world =
     \<lparr>rand_Reader = (\<lambda>n. Some (replicate n (CHR ''r''))), now = 1700000000\<rparr>"

definition fresh_database :: database where
  "fresh_database = \<lparr>tbl_storage = None, tbl_salt = None\<rparr>"

definition open_depot :: Depot where
  "open_depot =
     \<lparr>conn = \<lparr>tbl_storage = Some [], tbl_salt = Some [replicate 32 (CHR ''s'')]\<rparr>,
      salt = replicate 32 (CHR ''s'')\<rparr>"

text \<open>The keys of the storage table, in row order.\<close>

definition stored_keys :: "Depot \<Rightarrow> string list" where
  "stored_keys db = (case tbl_storage (conn db) of None \<Rightarrow> [] | Some rs \<Rightarrow> map key rs)"

text \<open>
  A depot with a plaintext record, an encrypted record, and an encrypted record whose
  stored value is no longer base64.
\<close>

definition sample_depot :: Depot where
  "sample_depot =
     \<lparr>conn =
        \<lparr>tbl_storage = Some
           [\<lparr>modified = 1700000000, key = ''plaintext'', val = ''testing123'', nonce = None\<rparr>,
            \<lparr>modified = 1700000001, key = ''ciphertext'', val = ''QUJD'',
             nonce = Some (replicate 12 (CHR ''r''))\<rparr>,
            \<lparr>modified = 1700000002, key = ''damaged'', val = ''QUJD*A=='',
             nonce = Some (replicate 12 (CHR ''q''))\<rparr>],
         tbl_salt = Some [replicate 32 (CHR ''s'')]\<rparr>,
      salt = replicate 32 (CHR ''s'')\<rparr>"

section \<open>The encoding round trip\<close>

lemma length_encodeStd: "length encodeStd = 64"
  by (simp add: encodeStd_def)

lemma distinct_encodeStd: "distinct encodeStd"
  by (simp add: encodeStd_def)

lemma index_of_nth: "distinct xs \<Longrightarrow> i < length xs \<Longrightarrow> index_of (xs ! i) xs = Some i"
proof (induction xs arbitrary: i)
  case Nil
  then show ?case by simp
next
  case (Cons x xs)
  show ?case
  proof (cases i)
    case 0
    then show ?thesis by simp
  next
    case (Suc j)
    with Cons.prems have "xs ! j \<noteq> x" "j < length xs" "distinct xs" by auto
    with Cons.IH [of j] Suc show ?thesis by simp
  qed
qed

lemma sextet_less: "sextet v sh < 64"
  by (simp add: sextet_def)

lemma decodeMap_encode: "decodeMap (encode (sextet v sh)) = Some (sextet v sh)"
  by (simp add: decodeMap_def encode_def index_of_nth distinct_encodeStd length_encodeStd
      sextet_less)

lemma decodeMap_padChar: "decodeMap padChar = None"
  by (simp add: decodeMap_def encodeStd_def padChar_def)

lemma newline_not_in_alphabet: "CHR 0x0A \<notin> set encodeStd" "CHR 0x0D \<notin> set encodeStd"
  by (simp_all add: encodeStd_def)

lemma encode_no_newline:
  "encode (sextet v sh) \<noteq> CHR 0x0A" "encode (sextet v sh) \<noteq> CHR 0x0D"
proof -
  have "encode (sextet v sh) \<in> set encodeStd"
    by (simp add: encode_def length_encodeStd sextet_less)
  then show "encode (sextet v sh) \<noteq> CHR 0x0A" "encode (sextet v sh) \<noteq> CHR 0x0D"
    using newline_not_in_alphabet by auto
qed

lemma split64: "(q::nat) = (q div 64) * 64 + q mod 64"
  by simp

lemma assemble_sextets:
  assumes "v < 16777216"
  shows "assemble (sextet v 18) (sextet v 12) (sextet v 6) (sextet v 0) = v"
proof -
  have d1: "v div 64 div 64 = v div 4096" by (simp add: div_mult2_eq [symmetric])
  have d2: "v div 4096 div 64 = v div 262144" by (simp add: div_mult2_eq [symmetric])
  have small: "v div 262144 < 64" using assms by simp
  have b: "v div 64 = (v div 4096) * 64 + (v div 64) mod 64"
    using split64 [of "v div 64"] by (simp only: d1)
  have c: "v div 4096 = (v div 262144) * 64 + (v div 4096) mod 64"
    using split64 [of "v div 4096"] by (simp only: d2)
  have "assemble (sextet v 18) (sextet v 12) (sextet v 6) (sextet v 0)
      = (v div 262144) * 262144 + (v div 4096 mod 64) * 4096 + (v div 64 mod 64) * 64 + v mod 64"
    using small by (simp add: assemble_def sextet_def)
  also have "\<dots> = ((v div 262144) * 64 + (v div 4096) mod 64) * 4096
      + (v div 64 mod 64) * 64 + v mod 64"
    by (simp add: algebra_simps)
  also have "\<dots> = (v div 4096) * 4096 + (v div 64 mod 64) * 64 + v mod 64"
    using c by simp
  also have "\<dots> = ((v div 4096) * 64 + (v div 64) mod 64) * 64 + v mod 64"
    by (simp add: algebra_simps)
  also have "\<dots> = (v div 64) * 64 + v mod 64"
    using b by simp
  also have "\<dots> = v" by simp
  finally show ?thesis .
qed

lemma quantum_less: "quantum a b c < 16777216"
proof -
  have "of_char a < (256::nat)" "of_char b < (256::nat)" "of_char c < (256::nat)"
    by simp_all
  then show ?thesis unfolding quantum_def by linarith
qed

lemma quantum_hi: "quantum a b c div 65536 = of_char a"
proof -
  have "of_char b < (256::nat)" "of_char c < (256::nat)" by simp_all
  then have r: "of_char b * 256 + of_char c < (65536::nat)" by linarith
  have "quantum a b c = of_char a * 65536 + (of_char b * 256 + of_char c)"
    by (simp add: quantum_def)
  then have "quantum a b c div 65536 = of_char a + (of_char b * 256 + of_char c) div 65536"
    by simp
  with r show ?thesis by simp
qed

lemma quantum_mid: "quantum a b c div 256 mod 256 = of_char b"
proof -
  have c: "of_char c < (256::nat)" by simp
  have "quantum a b c = (of_char a * 256 + of_char b) * 256 + of_char c"
    by (simp add: quantum_def)
  then have "quantum a b c div 256 = of_char a * 256 + of_char b + of_char c div 256"
    by (simp only: div_mult_self3)
  with c have "quantum a b c div 256 = of_char a * 256 + of_char b" by simp
  then show ?thesis by simp
qed

lemma quantum_lo: "quantum a b c mod 256 = of_char c"
proof -
  have "quantum a b c = (of_char a * 256 + of_char b) * 256 + of_char c"
    by (simp add: quantum_def)
  then have "quantum a b c mod 256 = ((of_char a * 256 + of_char b) * 256 + of_char c) mod 256"
    by (rule arg_cong)
  also have "\<dots> = of_char c"
    by (simp only: mod_mult_self3 of_char_mod_256)
  finally show ?thesis .
qed

lemma byte_hi: "char_of (quantum a b c div 65536) = a"
  by (simp add: quantum_hi)

lemma byte_mid: "char_of (quantum a b c div 256) = b"
proof -
  have "char_of (quantum a b c div 256 mod 256) = b"
    by (simp only: quantum_mid char_of_char)
  then show ?thesis by (simp only: char_of_mod_256)
qed

lemma byte_lo: "char_of (quantum a b c) = c"
proof -
  have "char_of (quantum a b c mod 256) = c"
    by (simp only: quantum_lo char_of_char)
  then show ?thesis by (simp only: char_of_mod_256)
qed

lemma sextet0_pad: "sextet (quantum a b (CHR 0x00)) 0 = 0"
proof -
  have "quantum a b (CHR 0x00) = (of_char a * 1024 + of_char b * 4) * 64"
    by (simp add: quantum_def)
  then show ?thesis by (simp add: sextet_def)
qed

lemma sextet6_pad: "sextet (quantum a (CHR 0x00) (CHR 0x00)) 6 = 0"
proof -
  have "quantum a (CHR 0x00) (CHR 0x00) = (of_char a * 16) * 64 * 64"
    by (simp add: quantum_def)
  then have "quantum a (CHR 0x00) (CHR 0x00) div 64 = (of_char a * 16) * 64"
    by simp
  then show ?thesis by (simp add: sextet_def)
qed

lemma assemble_quantum3:
  "assemble (sextet (quantum a b c) 18) (sextet (quantum a b c) 12)
     (sextet (quantum a b c) 6) (sextet (quantum a b c) 0) = quantum a b c"
  by (rule assemble_sextets [OF quantum_less])

lemma assemble_quantum2:
  "assemble (sextet (quantum a b (CHR 0x00)) 18) (sextet (quantum a b (CHR 0x00)) 12)
     (sextet (quantum a b (CHR 0x00)) 6) 0 = quantum a b (CHR 0x00)"
  using assemble_quantum3 [of a b "CHR 0x00"] by (simp only: sextet0_pad)

lemma assemble_quantum1:
  "assemble (sextet (quantum a (CHR 0x00) (CHR 0x00)) 18)
     (sextet (quantum a (CHR 0x00) (CHR 0x00)) 12) 0 0 = quantum a (CHR 0x00) (CHR 0x00)"
  using assemble_quantum2 [of a "CHR 0x00"] by (simp only: sextet6_pad)

lemma decodeQuanta_EncodeToString: "decodeQuanta (EncodeToString src) = Inr src"
proof (induction src rule: EncodeToString.induct)
  case (1 a b c src)
  then show ?case
    by (simp add: Let_def decodeMap_encode assemble_quantum3 byte_hi byte_mid byte_lo)
next
  case (2 a b)
  show ?case
    by (simp add: Let_def decodeMap_encode decodeMap_padChar assemble_quantum2 byte_hi byte_mid)
next
  case (3 a)
  show ?case
    by (simp add: Let_def decodeMap_encode decodeMap_padChar assemble_quantum1 byte_hi)
next
  case 4
  show ?case by simp
qed

lemma EncodeToString_no_newline:
  "filter (\<lambda>c. c \<noteq> CHR 0x0A \<and> c \<noteq> CHR 0x0D) (EncodeToString src) = EncodeToString src"
  by (induction src rule: EncodeToString.induct)
    (simp_all add: Let_def encode_no_newline padChar_def)

lemma DecodeString_EncodeToString: "DecodeString (EncodeToString src) = Inr src"
  by (simp add: DecodeString_def EncodeToString_no_newline decodeQuanta_EncodeToString)

lemma decodeQuanta_error: "decodeQuanta s = Inl e \<Longrightarrow> e = CorruptInputError"
  by (induction s arbitrary: e rule: decodeQuanta.induct)
    (auto split: option.splits if_splits sum.splits)

lemma DecodeString_error: "DecodeString s = Inl e \<Longrightarrow> e = CorruptInputError"
  unfolding DecodeString_def by (rule decodeQuanta_error)

section \<open>Rows of the storage table\<close>

lemma find_append:
  "find P (xs @ ys) = (case find P xs of None \<Rightarrow> find P ys | Some x \<Rightarrow> Some x)"
  by (induction xs) auto

lemma find_no_key: "\<not> list_ex (\<lambda>r. key r = k) rs \<Longrightarrow> find (\<lambda>r. key r = k) rs = None"
  by (induction rs) auto

lemma rewritten_row:
  "key r = k \<Longrightarrow>
     r\<lparr>modified := t, val := v, nonce := n\<rparr> = \<lparr>modified = t, key = k, val = v, nonce = n\<rparr>"
  by (cases r) simp

lemma find_rewritten:
  "list_ex (\<lambda>r. key r = k) rs \<Longrightarrow>
     find (\<lambda>r. key r = k)
       (map (\<lambda>r. if key r = k then r\<lparr>modified := t, val := v, nonce := n\<rparr> else r) rs)
     = Some \<lparr>modified = t, key = k, val = v, nonce = n\<rparr>"
proof (induction rs)
  case Nil
  then show ?case by simp
next
  case (Cons r rs)
  show ?case
  proof (cases "key r = k")
    case True
    then show ?thesis by (simp add: rewritten_row)
  next
    case False
    with Cons show ?thesis by simp
  qed
qed

lemma find_upsert_same:
  "find (\<lambda>r. key r = k) (upsert_rows t k v n rs) = Some \<lparr>modified = t, key = k, val = v, nonce = n\<rparr>"
proof (cases "list_ex (\<lambda>r. key r = k) rs")
  case True
  then show ?thesis by (simp add: upsert_rows_def find_rewritten)
next
  case False
  then show ?thesis by (simp add: upsert_rows_def find_append find_no_key)
qed

lemma find_upsert_other:
  assumes "k' \<noteq> k"
  shows "find (\<lambda>r. key r = k') (upsert_rows t k v n rs) = find (\<lambda>r. key r = k') rs"
proof -
  have "find (\<lambda>r. key r = k')
          (map (\<lambda>r. if key r = k then r\<lparr>modified := t, val := v, nonce := n\<rparr> else r) rs)
        = find (\<lambda>r. key r = k') rs"
    using assms by (induction rs) auto
  moreover have "find (\<lambda>r. key r = k') (rs @ [\<lparr>modified = t, key = k, val = v, nonce = n\<rparr>])
        = find (\<lambda>r. key r = k') rs"
    using assms by (simp add: find_append split: option.splits)
  ultimately show ?thesis by (simp add: upsert_rows_def)
qed

lemma keys_upsert_present:
  "list_ex (\<lambda>r. key r = k) rs \<Longrightarrow> map key (upsert_rows t k v n rs) = map key rs"
  by (simp add: upsert_rows_def)

lemma find_deleted: "find (\<lambda>r. key r = k) (filter (\<lambda>r. key r \<noteq> k) rs) = None"
  by (induction rs) auto

lemma filter_absent:
  "find (\<lambda>r. key r = k) rs = None \<Longrightarrow> filter (\<lambda>r. key r \<noteq> k) rs = rs"
  by (induction rs) (auto split: if_splits)

section \<open>The key derivation\<close>

lemma hmac_New_short:
  "length k \<le> 64 \<Longrightarrow> hmac_New cr k = k @ replicate (64 - length k) (CHR 0x00)"
  by (simp add: hmac_New_def)

lemma hmac_New_zero_byte:
  assumes "length k < 64"
  shows "hmac_New cr (k @ [CHR 0x00]) = hmac_New cr k"
proof -
  have "64 - length k = Suc (64 - length (k @ [CHR 0x00]))"
    using assms by simp
  then have "replicate (64 - length k) (CHR 0x00)
      = CHR 0x00 # replicate (64 - length (k @ [CHR 0x00])) (CHR 0x00)"
    by (simp only: replicate_Suc)
  then show ?thesis
    using assms by (simp add: hmac_New_short)
qed

lemma pbkdf2_Key_zero_byte:
  "length p < 64 \<Longrightarrow> pbkdf2_Key cr (p @ [CHR 0x00]) s i l = pbkdf2_Key cr p s i l"
  by (simp add: pbkdf2_Key_def hmac_New_zero_byte)

lemma pbkdf2_Key_length: "kdf_sized cr \<Longrightarrow> length (pbkdf2_Key cr p s i l) = l"
  by (simp add: kdf_sized_def pbkdf2_Key_def)

section \<open>The operations in terms of the stored row\<close>

lemma select_of_lookup:
  "lookup db k = Some r \<Longrightarrow> select_val_nonce (conn db) k = Inr (val r, nonce r)"
  by (auto simp add: lookup_def select_val_nonce_def split: option.splits)

lemma select_of_no_row:
  "tbl_storage (conn db) = Some rs \<Longrightarrow> lookup db k = None \<Longrightarrow>
     select_val_nonce (conn db) k = Inl ErrNoRows"
  by (simp add: lookup_def select_val_nonce_def)

lemma select_of_no_table:
  "tbl_storage (conn db) = None \<Longrightarrow> select_val_nonce (conn db) k = Inl (NoSuchTable ''storage'')"
  by (simp add: select_val_nonce_def)

lemma Fetch_plain_row:
  "lookup db k = Some r \<Longrightarrow> nonce r = None \<Longrightarrow> Fetch cr db k password = Returns (Inr (val r))"
  by (simp add: Fetch_def select_of_lookup)


lemma Fetch_sealed_row:
  "lookup db k = Some r \<Longrightarrow> nonce r = Some n \<Longrightarrow>
     Fetch cr db k (Some p) =
       (case DecodeString (val r) of
          Inl err \<Rightarrow> Returns (Inl (Errorf ''cannot decrypt data'' err))
        | Inr valbytes \<Rightarrow>
            (case decrypt cr p (salt db) n valbytes of
               Panics m \<Rightarrow> Panics m
             | Returns (Inl err) \<Rightarrow> Returns (Inl (Errorf ''cannot decrypt data'' err))
             | Returns (Inr plaintext) \<Rightarrow> Returns (Inr plaintext)))"
  by (simp add: Fetch_def select_of_lookup split: sum.splits outcome.splits)

lemma Fetch_no_row:
  "tbl_storage (conn db) = Some rs \<Longrightarrow> lookup db k = None \<Longrightarrow>
     Fetch cr db k password = Returns (Inl ErrNotFound)"
  by (simp add: Fetch_def select_of_no_row)

lemma Fetch_r1_agrees:
  "password \<noteq> None \<or> (\<forall>r. lookup db k = Some r \<longrightarrow> nonce r = None) \<Longrightarrow>
     Fetch_r1 cr db k password = Fetch cr db k password"
  by (auto simp add: Fetch_def Fetch_r1_def lookup_def select_val_nonce_def
      split: option.splits sum.splits outcome.splits)

lemma Fetch_r1_present: "Fetch_r1 cr db k (Some p) = Fetch cr db k (Some p)"
  by (rule Fetch_r1_agrees) simp

lemma Fetch_r1_plain_row:
  "lookup db k = Some r \<Longrightarrow> nonce r = None \<Longrightarrow> Fetch_r1 cr db k password = Returns (Inr (val r))"
  by (simp add: Fetch_r1_def select_of_lookup)

lemma Fetch_r1_no_row:
  "tbl_storage (conn db) = Some rs \<Longrightarrow> lookup db k = None \<Longrightarrow>
     Fetch_r1 cr db k password = Returns (Inl ErrNotFound)"
  by (simp add: Fetch_r1_def select_of_no_row)

lemma Fetch_r1_nil:
  "lookup db k = Some r \<Longrightarrow> nonce r = Some n \<Longrightarrow>
     Fetch_r1 cr db k None = Fetch cr db k (Some [])"
  by (simp add: Fetch_r1_def Fetch_def select_of_lookup split: sum.splits outcome.splits)

lemma Peek_plain_row: "lookup db k = Some r \<Longrightarrow> nonce r = None \<Longrightarrow> Peek db k = val r"
  by (simp add: Peek_def select_of_lookup)

lemma Peek_sealed_row: "lookup db k = Some r \<Longrightarrow> nonce r = Some n \<Longrightarrow> Peek db k = ''''"
  by (simp add: Peek_def select_of_lookup)

lemma Peek_no_row: "lookup db k = None \<Longrightarrow> Peek db k = ''''"
  by (auto simp add: Peek_def lookup_def select_val_nonce_def split: option.splits)

lemma Stow_plain:
  assumes "Stow cr w db k v None = Inr db'"
  obtains rs where "tbl_storage (conn db) = Some rs"
    and "db' = db\<lparr>conn := (conn db)\<lparr>tbl_storage := Some (upsert_rows (now w) k v None rs)\<rparr>\<rparr>"
  using assms
  by (auto simp add: Stow_def upsert_def nonce_taken_def split: option.splits sum.splits)

lemma Stow_sealed:
  assumes "Stow cr w db k v (Some p) = Inr db'"
  obtains rs n where "tbl_storage (conn db) = Some rs"
    and "rand_Reader w 12 = Some n" and "length n = 12"
    and "aes_NewCipher (pbkdf2_Key cr p (salt db) 4096 32) = Inr (pbkdf2_Key cr p (salt db) 4096 32)"
    and "\<not> nonce_taken rs k (Some n)"
    and "db' = db\<lparr>conn := (conn db)\<lparr>tbl_storage := Some (upsert_rows (now w) k
            (EncodeToString (gcm_Seal cr (pbkdf2_Key cr p (salt db) 4096 32) n v)) (Some n) rs)\<rparr>\<rparr>"
  using assms
  by (auto simp add: Stow_def encrypt_def upsert_def ReadFull_def aes_NewCipher_def
      cipher_NewGCM_def Let_def split: option.splits sum.splits if_splits)

lemma lookup_Stow_plain:
  assumes "Stow cr w db k v None = Inr db'"
  shows "lookup db' k = Some \<lparr>modified = now w, key = k, val = v, nonce = None\<rparr>"
    and "salt db' = salt db" and "tbl_salt (conn db') = tbl_salt (conn db)"
proof -
  from assms obtain rs where
    d': "db' = db\<lparr>conn := (conn db)\<lparr>tbl_storage := Some (upsert_rows (now w) k v None rs)\<rparr>\<rparr>"
    by (rule Stow_plain)
  show "lookup db' k = Some \<lparr>modified = now w, key = k, val = v, nonce = None\<rparr>"
    by (simp add: d' lookup_def find_upsert_same)
  show "salt db' = salt db" by (simp add: d')
  show "tbl_salt (conn db') = tbl_salt (conn db)" by (simp add: d')
qed

lemma lookup_Stow_sealed:
  assumes "Stow cr w db k v (Some p) = Inr db'"
  obtains n where "length n = 12" and "rand_Reader w 12 = Some n"
    and "aes_NewCipher (pbkdf2_Key cr p (salt db) 4096 32) = Inr (pbkdf2_Key cr p (salt db) 4096 32)"
    and "lookup db' k = Some \<lparr>modified = now w, key = k,
           val = EncodeToString (gcm_Seal cr (pbkdf2_Key cr p (salt db) 4096 32) n v),
           nonce = Some n\<rparr>"
    and "salt db' = salt db" and "tbl_salt (conn db') = tbl_salt (conn db)"
proof -
  from assms obtain rs n where n: "length n = 12" "rand_Reader w 12 = Some n"
    and c: "aes_NewCipher (pbkdf2_Key cr p (salt db) 4096 32) = Inr (pbkdf2_Key cr p (salt db) 4096 32)"
    and d': "db' = db\<lparr>conn := (conn db)\<lparr>tbl_storage := Some (upsert_rows (now w) k
            (EncodeToString (gcm_Seal cr (pbkdf2_Key cr p (salt db) 4096 32) n v)) (Some n) rs)\<rparr>\<rparr>"
    by (rule Stow_sealed)
  have "lookup db' k = Some \<lparr>modified = now w, key = k,
           val = EncodeToString (gcm_Seal cr (pbkdf2_Key cr p (salt db) 4096 32) n v),
           nonce = Some n\<rparr>"
    by (simp add: d' lookup_def find_upsert_same)
  moreover have "salt db' = salt db" "tbl_salt (conn db') = tbl_salt (conn db)"
    by (simp_all add: d')
  ultimately show thesis using n c that by blast
qed

lemma lookup_Stow_other:
  assumes "Stow cr w db k v password = Inr db'" and "k' \<noteq> k"
  shows "lookup db' k' = lookup db k'"
proof (cases password)
  case None
  with assms(1) obtain rs where "tbl_storage (conn db) = Some rs"
    and "db' = db\<lparr>conn := (conn db)\<lparr>tbl_storage := Some (upsert_rows (now w) k v None rs)\<rparr>\<rparr>"
    by (auto elim: Stow_plain)
  then show ?thesis using assms(2) by (simp add: lookup_def find_upsert_other)
next
  case (Some p)
  with assms(1) obtain rs n where "tbl_storage (conn db) = Some rs"
    and "db' = db\<lparr>conn := (conn db)\<lparr>tbl_storage := Some (upsert_rows (now w) k
            (EncodeToString (gcm_Seal cr (pbkdf2_Key cr p (salt db) 4096 32) n v)) (Some n) rs)\<rparr>\<rparr>"
    by (auto elim: Stow_sealed)
  then show ?thesis using assms(2) by (simp add: lookup_def find_upsert_other)
qed

lemma decrypt_sealed:
  assumes "aead_correct cr" and "length n = 12"
    and "aes_NewCipher (pbkdf2_Key cr p slt 4096 32) = Inr (pbkdf2_Key cr p slt 4096 32)"
  shows "decrypt cr p slt n (gcm_Seal cr (pbkdf2_Key cr p slt 4096 32) n d) = Returns (Inr d)"
  using assms
  by (simp add: decrypt_def aesgcm_Open_def aead_correct_def cipher_NewGCM_def Let_def)

lemma kdf_key_accepted:
  "kdf_sized cr \<Longrightarrow> aes_NewCipher (pbkdf2_Key cr p s 4096 32) = Inr (pbkdf2_Key cr p s 4096 32)"
  by (simp add: pbkdf2_Key_length aes_NewCipher_def)

lemma decrypt_result:
  assumes "kdf_sized cr" and "length n = 12"
  shows "decrypt cr p s n c =
     (case gcm_Open cr (pbkdf2_Key cr p s 4096 32) n c of
        None \<Rightarrow> Returns (Inl ErrBadPassword)
      | Some plaintext \<Rightarrow> Returns (Inr plaintext))"
  using assms(2)
  by (simp add: decrypt_def Let_def kdf_key_accepted [OF assms(1)] cipher_NewGCM_def
      aesgcm_Open_def split: option.splits)

lemma decrypt_panics:
  assumes "kdf_sized cr" and "length n \<noteq> 12"
  shows "decrypt cr p s n c = Panics ''crypto/cipher: incorrect nonce length given to GCM''"
  using assms(2)
  by (simp add: decrypt_def Let_def kdf_key_accepted [OF assms(1)] cipher_NewGCM_def
      aesgcm_Open_def)

lemma Fetch_after_Stow_sealed:
  assumes "aead_correct cr" and "Stow cr w db k v (Some p) = Inr db'"
  shows "Fetch cr db' k (Some p) = Returns (Inr v)"
proof -
  from assms(2) obtain n where n: "length n = 12"
    and c: "aes_NewCipher (pbkdf2_Key cr p (salt db) 4096 32) = Inr (pbkdf2_Key cr p (salt db) 4096 32)"
    and r: "lookup db' k = Some \<lparr>modified = now w, key = k,
           val = EncodeToString (gcm_Seal cr (pbkdf2_Key cr p (salt db) 4096 32) n v),
           nonce = Some n\<rparr>"
    and s: "salt db' = salt db"
    by (rule lookup_Stow_sealed)
  show ?thesis
    using decrypt_sealed [OF assms(1) n c]
    by (simp add: Fetch_sealed_row [OF r] s DecodeString_EncodeToString)
qed

lemma Drop_result:
  "tbl_storage (conn db) = Some rs \<Longrightarrow>
     Drop db k = Inr (db\<lparr>conn := (conn db)\<lparr>tbl_storage := Some (filter (\<lambda>r. key r \<noteq> k) rs)\<rparr>\<rparr>)"
  by (simp add: Drop_def delete_key_def)

lemma Drop_no_table:
  "tbl_storage (conn db) = None \<Longrightarrow>
     Drop db k = Inl (Errorf ''cannot access database'' (NoSuchTable ''storage''))"
  by (simp add: Drop_def delete_key_def)

section \<open>The evaluation instance\<close>

lemma plain_crypto_sized: "kdf_sized plain_crypto"
  by (auto simp add: kdf_sized_def plain_crypto_def min_def)

lemma plain_crypto_correct: "aead_correct plain_crypto"
  by (simp add: aead_correct_def plain_crypto_def)

lemma plain_crypto_short_rejected:
  assumes "length c < 44" and "length n = 12"
  shows "decrypt plain_crypto p s n c = Returns (Inl ErrBadPassword)"
proof -
  let ?K = "pbkdf2_Key plain_crypto p s 4096 32"
  have l: "length ?K = 32"
    using plain_crypto_sized by (rule pbkdf2_Key_length)
  have "c \<noteq> ?K @ n"
  proof
    assume "c = ?K @ n"
    then have "length c = length (?K @ n)" by (rule arg_cong)
    with l assms show False by simp
  qed
  moreover have "take (length ?K + length n) c = c"
    using l assms by simp
  ultimately have "gcm_Open plain_crypto ?K n c = None"
    by (simp add: plain_crypto_def)
  then show ?thesis
    by (simp add: decrypt_result [OF plain_crypto_sized assms(2)])
qed

lemma Stow_sealed_succeeds:
  assumes "tbl_storage (conn db) = Some rs" and "rand_Reader w 12 = Some n" and "length n = 12"
    and "length (pbkdf2_Key cr p (salt db) 4096 32) = 32" and "\<not> nonce_taken rs k (Some n)"
  shows "\<exists>db'. Stow cr w db k v (Some p) = Inr db'"
  using assms
  by (simp add: Stow_def encrypt_def upsert_def ReadFull_def aes_NewCipher_def
      cipher_NewGCM_def Let_def)

lemma Stow_plain_succeeds:
  assumes "tbl_storage (conn db) = Some rs"
  shows "\<exists>db'. Stow cr w db k v None = Inr db'"
  using assms by (simp add: Stow_def upsert_def nonce_taken_def)

lemma Stow_sealed_open_depot:
  "\<exists>db'. Stow plain_crypto fixed_world open_depot k v (Some p) = Inr db'"
proof (rule Stow_sealed_succeeds)
  show "tbl_storage (conn open_depot) = Some []" by (simp add: open_depot_def)
  show "rand_Reader fixed_world 12 = Some (replicate 12 (CHR ''r''))"
    by (simp add: fixed_world_def)
  show "length (replicate 12 (CHR ''r'')) = 12" by simp
  show "length (pbkdf2_Key plain_crypto p (salt open_depot) 4096 32) = 32"
    using plain_crypto_sized by (rule pbkdf2_Key_length)
  show "\<not> nonce_taken [] k (Some (replicate 12 (CHR ''r'')))"
    by (simp add: nonce_taken_def)
qed

lemma Stow_plain_open_depot:
  "\<exists>db'. Stow plain_crypto fixed_world open_depot k v None = Inr db'"
  by (rule Stow_plain_succeeds [of _ "[]"]) (simp add: open_depot_def)

section \<open>Round trips\<close>

text \<open>
  C1. After \<open>Stow k v p\<close> with a password \<open>p\<close> that is not \<^verbatim>\<open>nil\<close> has succeeded,
  \<open>Fetch k p\<close> returns exactly \<open>v\<close>, in either revision of \<open>Fetch\<close>, and \<open>Peek k\<close>
  returns the empty string, which is not \<open>v\<close> unless \<open>v\<close> is itself empty. This holds
  for every password that is present, so for every non-empty one. Needed of the cipher:
  opening what was sealed under the same key and 12-byte nonce gives the plaintext back.
\<close>

theorem stow_fetch_encrypted:
  assumes "aead_correct cr" and "Stow cr w db k v (Some p) = Inr db'"
  shows "Fetch cr db' k (Some p) = Returns (Inr v)
     \<and> Fetch_r1 cr db' k (Some p) = Returns (Inr v)
     \<and> Peek db' k = ''''
     \<and> (v \<noteq> '''' \<longrightarrow> Peek db' k \<noteq> v)"
proof -
  from assms(2) obtain n where
    "lookup db' k = Some \<lparr>modified = now w, key = k,
       val = EncodeToString (gcm_Seal cr (pbkdf2_Key cr p (salt db) 4096 32) n v),
       nonce = Some n\<rparr>"
    by (rule lookup_Stow_sealed)
  then have "Peek db' k = ''''"
    by (simp add: Peek_sealed_row)
  with Fetch_after_Stow_sealed [OF assms] show ?thesis
    by (simp add: Fetch_r1_present)
qed

theorem stow_fetch_encrypted_witness:
  "case Stow plain_crypto fixed_world open_depot ''k'' ''secret'' (Some ''pw'') of
     Inl err \<Rightarrow> False
   | Inr db' \<Rightarrow> Fetch plain_crypto db' ''k'' (Some ''pw'') = Returns (Inr ''secret'')
       \<and> Fetch_r1 plain_crypto db' ''k'' (Some ''pw'') = Returns (Inr ''secret'')
       \<and> Peek db' ''k'' = '''' \<and> Peek db' ''k'' \<noteq> ''secret''"
proof -
  obtain db' where s: "Stow plain_crypto fixed_world open_depot ''k'' ''secret'' (Some ''pw'') = Inr db'"
    using Stow_sealed_open_depot by blast
  show ?thesis
    using stow_fetch_encrypted [OF plain_crypto_correct s] by (simp add: s)
qed

text \<open>
  C2. After \<open>Stow k v nil\<close> has succeeded, \<open>Fetch k nil\<close> returns exactly \<open>v\<close>, in
  either revision of \<open>Fetch\<close>, and \<open>Peek k\<close> returns \<open>v\<close>.
\<close>

theorem stow_fetch_plaintext:
  assumes "Stow cr w db k v None = Inr db'"
  shows "Fetch cr db' k None = Returns (Inr v) \<and> Fetch_r1 cr db' k None = Returns (Inr v) \<and> Peek db' k = v"
  using lookup_Stow_plain(1) [OF assms]
  by (simp add: Fetch_plain_row Fetch_r1_plain_row Peek_plain_row)

theorem stow_fetch_plaintext_witness:
  "case Stow plain_crypto fixed_world open_depot ''k'' ''testing123'' None of
     Inl err \<Rightarrow> False
   | Inr db' \<Rightarrow> Fetch plain_crypto db' ''k'' None = Returns (Inr ''testing123'')
       \<and> Fetch_r1 plain_crypto db' ''k'' None = Returns (Inr ''testing123'')
       \<and> Peek db' ''k'' = ''testing123''"
proof -
  obtain db' where s: "Stow plain_crypto fixed_world open_depot ''k'' ''testing123'' None = Inr db'"
    using Stow_plain_open_depot by blast
  show ?thesis
    using stow_fetch_plaintext [OF s] by (simp add: s)
qed

section \<open>Errors of \<^verbatim>\<open>Fetch\<close>, and \<^verbatim>\<open>Peek\<close>\<close>

lemma sample_plaintext:
  "lookup sample_depot ''plaintext''
     = Some \<lparr>modified = 1700000000, key = ''plaintext'', val = ''testing123'', nonce = None\<rparr>"
  by (simp add: lookup_def sample_depot_def)

lemma sample_ciphertext:
  "lookup sample_depot ''ciphertext''
     = Some \<lparr>modified = 1700000001, key = ''ciphertext'', val = ''QUJD'',
             nonce = Some (replicate 12 (CHR ''r''))\<rparr>"
  by (simp add: lookup_def sample_depot_def)

lemma sample_damaged:
  "lookup sample_depot ''damaged''
     = Some \<lparr>modified = 1700000002, key = ''damaged'', val = ''QUJD*A=='',
             nonce = Some (replicate 12 (CHR ''q''))\<rparr>"
  by (simp add: lookup_def sample_depot_def)

lemma sample_absent: "lookup sample_depot ''badkey'' = None"
  by (simp add: lookup_def sample_depot_def)



text \<open>
  C4. \<open>Peek\<close> returns a string and nothing else, so it has no error to raise. It returns
  the stored value when the record of \<open>k\<close> exists and is not encrypted, and the empty
  string both when there is no record (also when the table cannot be read) and when the
  record is encrypted: the same result in both cases.
\<close>

theorem peek_never_fails:
  "(\<forall>r. lookup db k = Some r \<and> nonce r = None \<longrightarrow> Peek db k = val r)
   \<and> (lookup db k = None \<longrightarrow> Peek db k = '''')
   \<and> (\<forall>r. lookup db k = Some r \<and> nonce r \<noteq> None \<longrightarrow> Peek db k = '''')"
  by (auto simp add: Peek_plain_row Peek_no_row Peek_sealed_row)

theorem peek_never_fails_witness:
  "Peek sample_depot ''plaintext'' = ''testing123''
   \<and> Peek sample_depot ''badkey'' = ''''
   \<and> Peek sample_depot ''ciphertext'' = ''''"
  using peek_never_fails [of sample_depot "''plaintext''"]
    peek_never_fails [of sample_depot "''badkey''"]
    peek_never_fails [of sample_depot "''ciphertext''"]
  by (simp add: sample_plaintext sample_absent sample_ciphertext)

section \<open>Deletion\<close>

lemma same_table: "tbl_storage (conn db) = Some rs \<Longrightarrow> db\<lparr>conn := (conn db)\<lparr>tbl_storage := Some rs\<rparr>\<rparr> = db"
  by (cases db) auto

text \<open>
  C7. On a database whose storage table exists, \<open>Drop k\<close> returns no error, whether or
  not a record of \<open>k\<close> exists; when none exists the database is left as it was.
  Afterwards \<open>Fetch k p\<close> fails with \<open>ErrNotFound\<close> for every password \<open>p\<close>, \<^verbatim>\<open>nil\<close>
  included, in either revision of \<open>Fetch\<close>, and \<open>Peek k\<close> returns the empty string.
\<close>

theorem drop_then_not_found:
  assumes "tbl_storage (conn db) = Some rs"
  shows "\<exists>db'. Drop db k = Inr db'
     \<and> (\<forall>p. Fetch cr db' k p = Returns (Inl ErrNotFound) \<and> Fetch_r1 cr db' k p = Returns (Inl ErrNotFound))
     \<and> Peek db' k = ''''
     \<and> (lookup db k = None \<longrightarrow> db' = db)"
proof -
  let ?db' = "db\<lparr>conn := (conn db)\<lparr>tbl_storage := Some (filter (\<lambda>r. key r \<noteq> k) rs)\<rparr>\<rparr>"
  have d: "Drop db k = Inr ?db'"
    using assms by (rule Drop_result)
  have t: "tbl_storage (conn ?db') = Some (filter (\<lambda>r. key r \<noteq> k) rs)" by simp
  have l: "lookup ?db' k = None" by (simp add: lookup_def find_deleted)
  have f: "\<forall>p. Fetch cr ?db' k p = Returns (Inl ErrNotFound) \<and> Fetch_r1 cr ?db' k p = Returns (Inl ErrNotFound)"
    using Fetch_no_row [OF t l] Fetch_r1_no_row [OF t l] by simp
  have p: "Peek ?db' k = ''''"
    using l by (rule Peek_no_row)
  have e: "lookup db k = None \<longrightarrow> ?db' = db"
    using assms by (auto simp add: lookup_def filter_absent same_table)
  show ?thesis
  proof (intro exI conjI)
    show "Drop db k = Inr ?db'" by (rule d)
    show "\<forall>p. Fetch cr ?db' k p = Returns (Inl ErrNotFound) \<and> Fetch_r1 cr ?db' k p = Returns (Inl ErrNotFound)"
      by (rule f)
    show "Peek ?db' k = ''''" by (rule p)
    show "lookup db k = None \<longrightarrow> ?db' = db" by (rule e)
  qed
qed

theorem drop_then_not_found_witness:
  "(case Drop open_depot ''badkey'' of
      Inl err \<Rightarrow> False
    | Inr db' \<Rightarrow> db' = open_depot \<and> Fetch plain_crypto db' ''badkey'' None = Returns (Inl ErrNotFound)
        \<and> Peek db' ''badkey'' = '''')
   \<and> (case Drop sample_depot ''ciphertext'' of
      Inl err \<Rightarrow> False
    | Inr db' \<Rightarrow> Fetch plain_crypto db' ''ciphertext'' (Some ''pw'') = Returns (Inl ErrNotFound)
        \<and> Peek db' ''ciphertext'' = '''')"
proof -
  have t1: "tbl_storage (conn open_depot) = Some []" by (simp add: open_depot_def)
  have a: "lookup open_depot ''badkey'' = None" by (simp add: lookup_def open_depot_def)
  obtain rs where t2: "tbl_storage (conn sample_depot) = Some rs"
    by (simp add: sample_depot_def)
  from drop_then_not_found [OF t1, of "''badkey''" plain_crypto] a
  have 1: "case Drop open_depot ''badkey'' of
      Inl err \<Rightarrow> False
    | Inr db' \<Rightarrow> db' = open_depot \<and> Fetch plain_crypto db' ''badkey'' None = Returns (Inl ErrNotFound)
        \<and> Peek db' ''badkey'' = ''''"
    by auto
  from drop_then_not_found [OF t2, of "''ciphertext''" plain_crypto]
  have 2: "case Drop sample_depot ''ciphertext'' of
      Inl err \<Rightarrow> False
    | Inr db' \<Rightarrow> Fetch plain_crypto db' ''ciphertext'' (Some ''pw'') = Returns (Inl ErrNotFound)
        \<and> Peek db' ''ciphertext'' = ''''"
    by auto
  from 1 2 show ?thesis by simp
qed

section \<open>Overwriting a record\<close>

lemma find_Some_list_ex: "find P xs = Some x \<Longrightarrow> list_ex P xs"
  by (induction xs) (auto split: if_splits)

lemma Stow_keeps_keys:
  assumes "lookup db k = Some r0" and "Stow cr w db k v password = Inr db'"
  shows "stored_keys db' = stored_keys db"
proof -
  from assms(1) obtain rs where rs: "tbl_storage (conn db) = Some rs"
    and "find (\<lambda>r. key r = k) rs = Some r0"
    by (auto simp add: lookup_def split: option.splits)
  then have ex: "list_ex (\<lambda>r. key r = k) rs" by (auto dest: find_Some_list_ex)
  show ?thesis
  proof (cases password)
    case None
    with assms(2) rs have
      "db' = db\<lparr>conn := (conn db)\<lparr>tbl_storage := Some (upsert_rows (now w) k v None rs)\<rparr>\<rparr>"
      by (auto elim: Stow_plain)
    then show ?thesis using rs ex by (simp add: stored_keys_def keys_upsert_present)
  next
    case (Some p)
    with assms(2) rs obtain n where
      "db' = db\<lparr>conn := (conn db)\<lparr>tbl_storage := Some (upsert_rows (now w) k
            (EncodeToString (gcm_Seal cr (pbkdf2_Key cr p (salt db) 4096 32) n v)) (Some n) rs)\<rparr>\<rparr>"
      by (auto elim: Stow_sealed)
    then show ?thesis using rs ex by (simp add: stored_keys_def keys_upsert_present)
  qed
qed

lemma Stow_written_row:
  assumes "Stow cr w db k v password = Inr db'"
  shows "\<exists>r. lookup db' k = Some r \<and> modified r = now w
     \<and> nonce r = (case password of None \<Rightarrow> None | Some p \<Rightarrow> rand_Reader w 12)
     \<and> val r = (case password of
          None \<Rightarrow> v
        | Some p \<Rightarrow> EncodeToString (gcm_Seal cr (pbkdf2_Key cr p (salt db) 4096 32)
                        (bytes_of (rand_Reader w 12)) v))"
proof (cases password)
  case None
  with assms show ?thesis by (simp add: lookup_Stow_plain(1))
next
  case (Some p)
  with assms obtain n where "rand_Reader w 12 = Some n"
    and "lookup db' k = Some \<lparr>modified = now w, key = k,
           val = EncodeToString (gcm_Seal cr (pbkdf2_Key cr p (salt db) 4096 32) n v),
           nonce = Some n\<rparr>"
    by (auto elim: lookup_Stow_sealed)
  with Some show ?thesis by simp
qed

text \<open>
  C8. \<open>Stow\<close> on a key that has a record rewrites that one row in a single statement:
  afterwards the row holds the value, the nonce and the timestamp of this call (none of
  the old fields), no row has been added, and the rows of the other keys are as before.
  After \<open>Stow k v1 nil\<close> and then \<open>Stow k v2 p\<close>, \<open>Fetch k p\<close> returns \<open>v2\<close> (in
  either revision of \<open>Fetch\<close>), and the
  record, which had no nonce after the first call, has one after the second. A call that
  returns an error has written nothing: it has no resulting database.
\<close>

theorem stow_replaces_record:
  assumes "aead_correct cr"
  shows "(\<forall>r0 db'. lookup db k = Some r0 \<and> Stow cr w db k v password = Inr db' \<longrightarrow>
            (\<exists>r. lookup db' k = Some r \<and> modified r = now w
               \<and> nonce r = (case password of None \<Rightarrow> None | Some p \<Rightarrow> rand_Reader w 12)
               \<and> val r = (case password of
                    None \<Rightarrow> v
                  | Some p \<Rightarrow> EncodeToString (gcm_Seal cr (pbkdf2_Key cr p (salt db) 4096 32)
                                  (bytes_of (rand_Reader w 12)) v)))
            \<and> stored_keys db' = stored_keys db
            \<and> (\<forall>k'. k' \<noteq> k \<longrightarrow> lookup db' k' = lookup db k'))
     \<and> (\<forall>db1 db2. Stow cr w1 db k v1 None = Inr db1 \<and> Stow cr w2 db1 k v2 (Some p) = Inr db2 \<longrightarrow>
            Fetch cr db2 k (Some p) = Returns (Inr v2)
            \<and> Fetch_r1 cr db2 k (Some p) = Returns (Inr v2)
            \<and> (\<exists>r1. lookup db1 k = Some r1 \<and> nonce r1 = None \<and> val r1 = v1)
            \<and> (\<exists>r2. lookup db2 k = Some r2 \<and> nonce r2 \<noteq> None \<and> modified r2 = now w2)
            \<and> stored_keys db2 = stored_keys db1)"
proof (intro conjI allI impI)
  fix r0 db'
  assume a: "lookup db k = Some r0 \<and> Stow cr w db k v password = Inr db'"
  then show "\<exists>r. lookup db' k = Some r \<and> modified r = now w
               \<and> nonce r = (case password of None \<Rightarrow> None | Some p \<Rightarrow> rand_Reader w 12)
               \<and> val r = (case password of
                    None \<Rightarrow> v
                  | Some p \<Rightarrow> EncodeToString (gcm_Seal cr (pbkdf2_Key cr p (salt db) 4096 32)
                                  (bytes_of (rand_Reader w 12)) v))"
    by (simp add: Stow_written_row)
  from a show "stored_keys db' = stored_keys db"
    by (auto intro: Stow_keeps_keys)
  fix k'
  assume "k' \<noteq> k"
  with a show "lookup db' k' = lookup db k'"
    by (auto intro: lookup_Stow_other)
next
  fix db1 db2
  assume a: "Stow cr w1 db k v1 None = Inr db1 \<and> Stow cr w2 db1 k v2 (Some p) = Inr db2"
  then have s1: "Stow cr w1 db k v1 None = Inr db1"
    and s2: "Stow cr w2 db1 k v2 (Some p) = Inr db2" by simp_all
  have r1: "lookup db1 k = Some \<lparr>modified = now w1, key = k, val = v1, nonce = None\<rparr>"
    using s1 by (rule lookup_Stow_plain(1))
  show "Fetch cr db2 k (Some p) = Returns (Inr v2)"
    using assms s2 by (rule Fetch_after_Stow_sealed)
  then show "Fetch_r1 cr db2 k (Some p) = Returns (Inr v2)"
    by (simp add: Fetch_r1_present)
  show "\<exists>r1. lookup db1 k = Some r1 \<and> nonce r1 = None \<and> val r1 = v1"
    using r1 by simp
  from s2 obtain n where "lookup db2 k = Some \<lparr>modified = now w2, key = k,
           val = EncodeToString (gcm_Seal cr (pbkdf2_Key cr p (salt db1) 4096 32) n v2),
           nonce = Some n\<rparr>"
    by (rule lookup_Stow_sealed)
  then show "\<exists>r2. lookup db2 k = Some r2 \<and> nonce r2 \<noteq> None \<and> modified r2 = now w2"
    by simp
  show "stored_keys db2 = stored_keys db1"
    using r1 s2 by (rule Stow_keeps_keys)
qed

theorem stow_replaces_record_witness:
  "case Stow plain_crypto fixed_world open_depot ''k'' ''first'' None of
     Inl err \<Rightarrow> False
   | Inr db1 \<Rightarrow>
       (case Stow plain_crypto (fixed_world\<lparr>now := 1700000060\<rparr>) db1 ''k'' ''second'' (Some ''pw'') of
          Inl err \<Rightarrow> False
        | Inr db2 \<Rightarrow>
            Fetch plain_crypto db2 ''k'' (Some ''pw'') = Returns (Inr ''second'')
            \<and> map_option nonce (lookup db1 ''k'') = Some None
            \<and> map_option nonce (lookup db2 ''k'') = Some (Some (replicate 12 (CHR ''r'')))
            \<and> map_option modified (lookup db2 ''k'') = Some 1700000060
            \<and> stored_keys db2 = [''k''])"
proof -
  let ?w2 = "fixed_world\<lparr>now := 1700000060\<rparr>"
  obtain db1 where s1: "Stow plain_crypto fixed_world open_depot ''k'' ''first'' None = Inr db1"
    using Stow_plain_open_depot by blast
  have r1: "lookup db1 ''k'' = Some \<lparr>modified = now fixed_world, key = ''k'', val = ''first'', nonce = None\<rparr>"
    using s1 by (rule lookup_Stow_plain(1))
  have k1: "stored_keys db1 = [''k'']"
    using s1 by (auto elim!: Stow_plain simp add: stored_keys_def open_depot_def upsert_rows_def)
  then obtain rs where t1: "tbl_storage (conn db1) = Some rs" and rs: "map key rs = [''k'']"
    by (auto simp add: stored_keys_def split: option.splits)
  have n1: "\<not> nonce_taken rs ''k'' (Some (replicate 12 (CHR ''r'')))"
    using rs by (auto simp add: nonce_taken_def list_ex_iff)
  have "\<exists>db2. Stow plain_crypto ?w2 db1 ''k'' ''second'' (Some ''pw'') = Inr db2"
  proof (rule Stow_sealed_succeeds [OF t1 _ _ _ n1])
    show "rand_Reader ?w2 12 = Some (replicate 12 (CHR ''r''))" by (simp add: fixed_world_def)
    show "length (replicate 12 (CHR ''r'')) = 12" by simp
    show "length (pbkdf2_Key plain_crypto ''pw'' (salt db1) 4096 32) = 32"
      using plain_crypto_sized by (rule pbkdf2_Key_length)
  qed
  then obtain db2 where s2: "Stow plain_crypto ?w2 db1 ''k'' ''second'' (Some ''pw'') = Inr db2"
    by blast
  note scenario = stow_replaces_record [OF plain_crypto_correct, THEN conjunct2, rule_format,
      OF conjI [OF s1 s2]]
  note rewrite = stow_replaces_record [OF plain_crypto_correct, THEN conjunct1, rule_format,
      OF conjI [OF r1 s2]]
  from scenario have f: "Fetch plain_crypto db2 ''k'' (Some ''pw'') = Returns (Inr ''second'')"
    and ks: "stored_keys db2 = stored_keys db1"
    by simp_all
  from rewrite obtain r where r: "lookup db2 ''k'' = Some r" "modified r = now ?w2"
    "nonce r = rand_Reader ?w2 12"
    by auto
  from r have m: "modified r = 1700000060" "nonce r = Some (replicate 12 (CHR ''r''))"
    by (simp_all add: fixed_world_def)
  show ?thesis
    using f ks k1 r(1) m r1 by (simp add: s1 s2)
qed

section \<open>The salt\<close>

lemma Stow_keeps_salt:
  "Stow cr w db k v password = Inr db' \<Longrightarrow>
     salt db' = salt db \<and> tbl_salt (conn db') = tbl_salt (conn db)"
  by (cases password) (auto elim: lookup_Stow_sealed simp add: lookup_Stow_plain)

lemma Drop_keeps_salt:
  "Drop db k = Inr db' \<Longrightarrow> salt db' = salt db \<and> tbl_salt (conn db') = tbl_salt (conn db)"
  by (auto simp add: Drop_def delete_key_def split: option.splits)

lemma perform_keeps_salt:
  "salt (perform cr db c) = salt db \<and> tbl_salt (conn (perform cr db c)) = tbl_salt (conn db)"
proof (cases c)
  case (CallStow w k v password)
  then show ?thesis
    by (cases "Stow cr w db k v password") (simp_all add: Stow_keeps_salt)
next
  case (CallDrop k)
  then show ?thesis
    by (cases "Drop db k") (simp_all add: Drop_keeps_salt)
qed

lemma perform_all_keeps_salt:
  "salt (perform_all cr db cs) = salt db
     \<and> tbl_salt (conn (perform_all cr db cs)) = tbl_salt (conn db)"
  unfolding perform_all_def
proof (induction cs arbitrary: db)
  case Nil
  show ?case by simp
next
  case (Cons c cs)
  show ?case
    using Cons.IH [of "perform cr db c"] perform_keeps_salt [of cr db c] by simp
qed

lemma NewDepot_reopen:
  assumes "tbl_salt (conn db) = Some (salt db # ss)"
  shows "NewDepot w (conn db) = Inr db"
proof -
  have "\<lparr>conn = conn db, salt = salt db\<rparr> = db" by (cases db) simp
  with assms show ?thesis by (simp add: NewDepot_def select_salt_def)
qed

lemma NewDepot_stored:
  assumes "tbl_salt db0 = Some (s # ss)"
  shows "NewDepot w db0 = Inr \<lparr>conn = db0, salt = s\<rparr>"
  using assms by (simp add: NewDepot_def select_salt_def)

lemma NewDepot_generated:
  assumes "tbl_salt db0 = None \<or> tbl_salt db0 = Some []" and "NewDepot w db0 = Inr db"
  shows "tbl_salt (conn db) = Some [salt db] \<and> rand_Reader w 32 = Some (salt db)
     \<and> length (salt db) = 32"
  using assms
  by (auto simp add: NewDepot_def select_salt_def init_def insert_salt_def ReadFull_def
      split: option.splits sum.splits if_splits)

text \<open>
  C9. Starting from a database that holds at most one salt row (or has no salt table
  yet), a successful \<open>NewDepot\<close> leaves exactly one salt row, the salt of the depot. When a
  row was stored it is returned as it is and the database is not written; otherwise the
  salt is the 32 bytes read from the random source, inserted once. Whatever \<open>Stow\<close> and
  \<open>Drop\<close> calls follow, the depot's salt and the salt table stay the same, so every
  encryption and decryption uses this salt, and opening the database again returns the
  same depot without generating anything. That the bytes are cryptographically random is
  a property of \<^verbatim>\<open>rand.Reader\<close>, not stated here.
\<close>

theorem salt_generated_once:
  assumes "case tbl_salt db0 of None \<Rightarrow> True | Some ss \<Rightarrow> length ss \<le> 1"
    and "NewDepot w db0 = Inr db"
  shows "tbl_salt (conn db) = Some [salt db]
     \<and> (case tbl_salt db0 of
           Some (s # ss) \<Rightarrow> salt db = s \<and> conn db = db0
         | _ \<Rightarrow> rand_Reader w 32 = Some (salt db) \<and> length (salt db) = 32)
     \<and> (\<forall>cs w'. salt (perform_all cr db cs) = salt db
           \<and> tbl_salt (conn (perform_all cr db cs)) = Some [salt db]
           \<and> NewDepot w' (conn (perform_all cr db cs)) = Inr (perform_all cr db cs))"
proof -
  have one: "tbl_salt (conn db) = Some [salt db]"
    and origin: "case tbl_salt db0 of
           Some (s # ss) \<Rightarrow> salt db = s \<and> conn db = db0
         | _ \<Rightarrow> rand_Reader w 32 = Some (salt db) \<and> length (salt db) = 32"
  proof -
    consider (stored) s where "tbl_salt db0 = Some [s]"
      | (none) "tbl_salt db0 = None \<or> tbl_salt db0 = Some []"
      using assms(1)
      by (cases "tbl_salt db0") (auto simp add: le_Suc_eq length_Suc_conv)
    then have "tbl_salt (conn db) = Some [salt db]
       \<and> (case tbl_salt db0 of
           Some (s # ss) \<Rightarrow> salt db = s \<and> conn db = db0
         | _ \<Rightarrow> rand_Reader w 32 = Some (salt db) \<and> length (salt db) = 32)"
    proof cases
      case stored
      with assms(2) NewDepot_stored [of db0 s "[]" w] show ?thesis by auto
    next
      case none
      with NewDepot_generated [OF none assms(2)] show ?thesis by auto
    qed
    then show "tbl_salt (conn db) = Some [salt db]"
      and "case tbl_salt db0 of
           Some (s # ss) \<Rightarrow> salt db = s \<and> conn db = db0
         | _ \<Rightarrow> rand_Reader w 32 = Some (salt db) \<and> length (salt db) = 32"
      by simp_all
  qed
  have later: "salt (perform_all cr db cs) = salt db
           \<and> tbl_salt (conn (perform_all cr db cs)) = Some [salt db]
           \<and> NewDepot w' (conn (perform_all cr db cs)) = Inr (perform_all cr db cs)" for cs w'
  proof -
    have k: "salt (perform_all cr db cs) = salt db"
      and t: "tbl_salt (conn (perform_all cr db cs)) = Some [salt db]"
      using perform_all_keeps_salt [of cr db cs] one by simp_all
    from t k have "tbl_salt (conn (perform_all cr db cs)) = Some (salt (perform_all cr db cs) # [])"
      by simp
    then have "NewDepot w' (conn (perform_all cr db cs)) = Inr (perform_all cr db cs)"
      by (rule NewDepot_reopen)
    with k t show ?thesis by simp
  qed
  from one origin later show ?thesis by blast
qed

theorem salt_generated_once_witness:
  "case NewDepot fixed_world fresh_database of
     Inl err \<Rightarrow> False
   | Inr db \<Rightarrow>
       salt db = replicate 32 (CHR ''r'')
       \<and> tbl_salt (conn db) = Some [replicate 32 (CHR ''r'')]
       \<and> NewDepot (fixed_world\<lparr>rand_Reader := (\<lambda>n. Some (replicate n (CHR ''x'')))\<rparr>)
            (conn (perform_all plain_crypto db
               [CallStow fixed_world ''a'' ''one'' (Some ''pw''), CallStow fixed_world ''b'' ''two'' None,
                CallDrop ''a'']))
          = Inr (perform_all plain_crypto db
               [CallStow fixed_world ''a'' ''one'' (Some ''pw''), CallStow fixed_world ''b'' ''two'' None,
                CallDrop ''a''])
       \<and> salt (perform_all plain_crypto db
               [CallStow fixed_world ''a'' ''one'' (Some ''pw''), CallStow fixed_world ''b'' ''two'' None,
                CallDrop ''a'']) = replicate 32 (CHR ''r'')"
proof -
  have n: "NewDepot fixed_world fresh_database
      = Inr \<lparr>conn = \<lparr>tbl_storage = Some [], tbl_salt = Some [replicate 32 (CHR ''r'')]\<rparr>,
             salt = replicate 32 (CHR ''r'')\<rparr>"
    by (simp add: NewDepot_def fresh_database_def fixed_world_def select_salt_def init_def
        insert_salt_def ReadFull_def)
  have h: "case tbl_salt fresh_database of None \<Rightarrow> True | Some ss \<Rightarrow> length ss \<le> 1"
    by (simp add: fresh_database_def)
  show ?thesis
    using salt_generated_once [OF h n, of plain_crypto] by (simp add: n)
qed

section \<open>The empty password\<close>

lemma Fetch_not_password_needed:
  "Fetch cr db k (Some p) \<noteq> Returns (Inl ErrPasswordNeeded)"
  by (auto simp add: Fetch_def split: sum.splits option.splits prod.splits outcome.splits)

text \<open>
  C10. Only \<^verbatim>\<open>nil\<close> selects the plaintext path. \<open>Stow\<close> with the empty password that is
  not \<^verbatim>\<open>nil\<close> stores a record with a nonce, as with any other password, while \<open>Stow\<close>
  with \<^verbatim>\<open>nil\<close> stores the value itself with no nonce. On an encrypted record \<open>Fetch\<close>
  with the empty password does not fail with \<open>ErrPasswordNeeded\<close>: it decodes the stored
  value and calls \<open>decrypt\<close> with the empty password, and its result is that call's (the
  plaintext, the error wrapped, or the panic).
\<close>

theorem empty_password_encrypts:
  "(\<forall>db'. Stow cr w db k v (Some []) = Inr db' \<longrightarrow>
        (\<exists>r n. lookup db' k = Some r \<and> nonce r = Some n
           \<and> val r = EncodeToString (gcm_Seal cr (pbkdf2_Key cr [] (salt db) 4096 32) n v)))
   \<and> (\<forall>db'. Stow cr w db k v None = Inr db' \<longrightarrow>
        (\<exists>r. lookup db' k = Some r \<and> nonce r = None \<and> val r = v))
   \<and> (\<forall>r n. lookup db k = Some r \<and> nonce r = Some n \<longrightarrow>
        Fetch cr db k (Some []) \<noteq> Returns (Inl ErrPasswordNeeded)
        \<and> Fetch cr db k (Some []) =
            (case DecodeString (val r) of
               Inl err \<Rightarrow> Returns (Inl (Errorf ''cannot decrypt data'' err))
             | Inr valbytes \<Rightarrow>
                 (case decrypt cr [] (salt db) n valbytes of
                    Panics m \<Rightarrow> Panics m
                  | Returns (Inl err) \<Rightarrow> Returns (Inl (Errorf ''cannot decrypt data'' err))
                  | Returns (Inr plaintext) \<Rightarrow> Returns (Inr plaintext))))"
proof (intro conjI allI impI)
  fix db'
  assume "Stow cr w db k v (Some []) = Inr db'"
  then obtain n where "lookup db' k = Some \<lparr>modified = now w, key = k,
           val = EncodeToString (gcm_Seal cr (pbkdf2_Key cr [] (salt db) 4096 32) n v),
           nonce = Some n\<rparr>"
    by (rule lookup_Stow_sealed)
  then show "\<exists>r n. lookup db' k = Some r \<and> nonce r = Some n
           \<and> val r = EncodeToString (gcm_Seal cr (pbkdf2_Key cr [] (salt db) 4096 32) n v)"
    by simp
next
  fix db'
  assume "Stow cr w db k v None = Inr db'"
  then show "\<exists>r. lookup db' k = Some r \<and> nonce r = None \<and> val r = v"
    by (simp add: lookup_Stow_plain(1))
next
  fix r n
  assume "lookup db k = Some r \<and> nonce r = Some n"
  then show "Fetch cr db k (Some []) =
            (case DecodeString (val r) of
               Inl err \<Rightarrow> Returns (Inl (Errorf ''cannot decrypt data'' err))
             | Inr valbytes \<Rightarrow>
                 (case decrypt cr [] (salt db) n valbytes of
                    Panics m \<Rightarrow> Panics m
                  | Returns (Inl err) \<Rightarrow> Returns (Inl (Errorf ''cannot decrypt data'' err))
                  | Returns (Inr plaintext) \<Rightarrow> Returns (Inr plaintext)))"
    by (simp add: Fetch_sealed_row)
  show "Fetch cr db k (Some []) \<noteq> Returns (Inl ErrPasswordNeeded)"
    by (rule Fetch_not_password_needed)
qed

theorem empty_password_encrypts_witness:
  "(case Stow plain_crypto fixed_world open_depot ''k'' ''secret'' (Some []) of
      Inl err \<Rightarrow> False
    | Inr db' \<Rightarrow> map_option nonce (lookup db' ''k'') = Some (Some (replicate 12 (CHR ''r'')))
        \<and> Fetch plain_crypto db' ''k'' (Some []) = Returns (Inr ''secret''))
   \<and> (case Stow plain_crypto fixed_world open_depot ''k'' ''secret'' None of
      Inl err \<Rightarrow> False
    | Inr db' \<Rightarrow> map_option nonce (lookup db' ''k'') = Some None)
   \<and> Fetch plain_crypto sample_depot ''ciphertext'' (Some [])
       = Returns (Inl (Errorf ''cannot decrypt data'' ErrBadPassword))"
proof -
  obtain d1 where s1: "Stow plain_crypto fixed_world open_depot ''k'' ''secret'' (Some []) = Inr d1"
    using Stow_sealed_open_depot by blast
  obtain d2 where s2: "Stow plain_crypto fixed_world open_depot ''k'' ''secret'' None = Inr d2"
    using Stow_plain_open_depot by blast
  note sealed = empty_password_encrypts [THEN conjunct1, rule_format, OF s1]
  note plain = empty_password_encrypts [THEN conjunct2, THEN conjunct1, rule_format, OF s2]
  note fetched = empty_password_encrypts [THEN conjunct2, THEN conjunct2, rule_format,
      OF conjI [OF sample_ciphertext], of _ plain_crypto]
  from s1 obtain n where n: "rand_Reader fixed_world 12 = Some n"
    and l: "lookup d1 ''k'' = Some \<lparr>modified = now fixed_world, key = ''k'',
           val = EncodeToString (gcm_Seal plain_crypto
                   (pbkdf2_Key plain_crypto [] (salt open_depot) 4096 32) n ''secret''),
           nonce = Some n\<rparr>"
    by (rule lookup_Stow_sealed)
  from n have n12: "n = replicate 12 (CHR ''r'')" by (simp add: fixed_world_def)
  have a: "map_option nonce (lookup d1 ''k'') = Some (Some (replicate 12 (CHR ''r'')))"
    using sealed l n12 by simp
  have b: "Fetch plain_crypto d1 ''k'' (Some []) = Returns (Inr ''secret'')"
    using plain_crypto_correct s1 by (rule Fetch_after_Stow_sealed)
  have c: "map_option nonce (lookup d2 ''k'') = Some None"
    using plain by auto
  have "EncodeToString ''ABC'' = ''QUJD''"
    by (simp add: quantum_def sextet_def encode_def encodeStd_def)
  then have dq: "DecodeString ''QUJD'' = Inr ''ABC''"
    using DecodeString_EncodeToString [of "''ABC''"] by simp
  have dc: "decrypt plain_crypto [] (salt sample_depot) (replicate 12 (CHR ''r'')) ''ABC''
       = Returns (Inl ErrBadPassword)"
    by (rule plain_crypto_short_rejected) simp_all
  have d: "Fetch plain_crypto sample_depot ''ciphertext'' (Some [])
       = Returns (Inl (Errorf ''cannot decrypt data'' ErrBadPassword))"
    using fetched [of "replicate 12 (CHR ''r'')"] by (simp add: dq dc)
  from a b c d show ?thesis by (simp add: s1 s2)
qed

section \<open>Passwords that do not open a record\<close>

lemma Fetch_same_key:
  assumes "aead_correct cr" and "Stow cr w db k v (Some p) = Inr db'"
    and "pbkdf2_Key cr p' (salt db) 4096 32 = pbkdf2_Key cr p (salt db) 4096 32"
  shows "Fetch cr db' k (Some p') = Returns (Inr v)"
proof -
  from assms(2) obtain n where n: "length n = 12"
    and c: "aes_NewCipher (pbkdf2_Key cr p (salt db) 4096 32) = Inr (pbkdf2_Key cr p (salt db) 4096 32)"
    and r: "lookup db' k = Some \<lparr>modified = now w, key = k,
           val = EncodeToString (gcm_Seal cr (pbkdf2_Key cr p (salt db) 4096 32) n v),
           nonce = Some n\<rparr>"
    and s: "salt db' = salt db"
    by (rule lookup_Stow_sealed)
  have "decrypt cr p' (salt db) n (gcm_Seal cr (pbkdf2_Key cr p (salt db) 4096 32) n v)
      = Returns (Inr v)"
    using assms(1) n c
    by (simp add: decrypt_def aesgcm_Open_def aead_correct_def cipher_NewGCM_def Let_def
        assms(3))
  then show ?thesis
    by (simp add: Fetch_sealed_row [OF r] s DecodeString_EncodeToString)
qed

lemma Fetch_zero_byte_password:
  assumes "aead_correct cr" and "length p < 64" and "Stow cr w db k v (Some p) = Inr db'"
  shows "Fetch cr db' k (Some (p @ [CHR 0x00])) = Returns (Inr v)"
  using assms(1,3) by (rule Fetch_same_key) (simp add: pbkdf2_Key_zero_byte assms(2))

lemma Fetch_by_Open:
  assumes "kdf_sized cr" and "Stow cr w db k v (Some p) = Inr db'"
  shows "\<exists>n. rand_Reader w 12 = Some n
     \<and> Fetch cr db' k (Some p') =
         (case gcm_Open cr (pbkdf2_Key cr p' (salt db) 4096 32) n
                 (gcm_Seal cr (pbkdf2_Key cr p (salt db) 4096 32) n v) of
            None \<Rightarrow> Returns (Inl (Errorf ''cannot decrypt data'' ErrBadPassword))
          | Some plaintext \<Rightarrow> Returns (Inr plaintext))"
proof -
  from assms(2) obtain n where n: "length n = 12" and rd: "rand_Reader w 12 = Some n"
    and r: "lookup db' k = Some \<lparr>modified = now w, key = k,
           val = EncodeToString (gcm_Seal cr (pbkdf2_Key cr p (salt db) 4096 32) n v),
           nonce = Some n\<rparr>"
    and s: "salt db' = salt db"
    by (rule lookup_Stow_sealed)
  have "Fetch cr db' k (Some p') =
         (case gcm_Open cr (pbkdf2_Key cr p' (salt db) 4096 32) n
                 (gcm_Seal cr (pbkdf2_Key cr p (salt db) 4096 32) n v) of
            None \<Rightarrow> Returns (Inl (Errorf ''cannot decrypt data'' ErrBadPassword))
          | Some plaintext \<Rightarrow> Returns (Inr plaintext))"
    by (simp add: Fetch_sealed_row [OF r] s DecodeString_EncodeToString
        decrypt_result [OF assms(1) n] split: option.splits)
  with rd show ?thesis by blast
qed

text \<open>
  A cipher that opens what it sealed cannot reject under every other key: there are more
  keys of 32 bytes than sealed texts of 16 bytes (the tag alone, for the empty plaintext),
  so two keys seal the empty plaintext alike, and each opens the other's. No theorem here
  assumes that \<^verbatim>\<open>Open\<close> fails under another key.
\<close>

lemma card_bytes_of_length: "finite {c::bytes. length c = m} \<and> card {c::bytes. length c = m} = 256 ^ m"
proof -
  have "{c::bytes. length c = m} = {c. set c \<subseteq> UNIV \<and> length c = m}" by simp
  moreover have "finite {c::bytes. set c \<subseteq> UNIV \<and> length c = m}"
    by (rule finite_lists_length_eq) simp
  moreover have "card {c::bytes. set c \<subseteq> UNIV \<and> length c = m} = card (UNIV :: char set) ^ m"
    by (rule card_lists_length_eq) simp
  ultimately show ?thesis by (simp add: card_UNIV_char)
qed

lemma another_key_opens:
  assumes "aead_correct cr" and "length n = 12"
    and "\<forall>k. length k = 32 \<longrightarrow> length (gcm_Seal cr k n []) = 16"
  shows "\<exists>k k'. length k = 32 \<and> length k' = 32 \<and> k' \<noteq> k
     \<and> gcm_Open cr k' n (gcm_Seal cr k n []) = Some []"
proof -
  let ?A = "{k::bytes. length k = 32}"
  let ?B = "{c::bytes. length c = 16}"
  let ?f = "\<lambda>k. gcm_Seal cr k n []"
  have fA: "finite ?A" and cA: "card ?A = 256 ^ 32"
    using card_bytes_of_length [of 32] by simp_all
  have fB: "finite ?B" and cB: "card ?B = 256 ^ 16"
    using card_bytes_of_length [of 16] by simp_all
  have "?f ` ?A \<subseteq> ?B" using assms(3) by auto
  then have "card (?f ` ?A) \<le> card ?B" using fB by (rule card_mono [rotated])
  also have "card ?B < card ?A" by (simp add: cA cB)
  finally have "card (?f ` ?A) < card ?A" .
  then have "\<not> inj_on ?f ?A" by (rule pigeonhole)
  then obtain k k' where k: "length k = 32" "length k' = 32" "k' \<noteq> k"
    and same: "gcm_Seal cr k n [] = gcm_Seal cr k' n []"
    by (auto simp add: inj_on_def)
  have "gcm_Open cr k' n (gcm_Seal cr k' n []) = Some []"
    using assms(1,2) by (simp add: aead_correct_def)
  with same have "gcm_Open cr k' n (gcm_Seal cr k n []) = Some []" by simp
  with k show ?thesis by blast
qed

text \<open>
  C5, as stated, fails for two passwords that differ by a trailing zero byte. The key
  derivation reads a password only through the HMAC key block, which is the password
  filled up with zero bytes, so \<^verbatim>\<open>pw\<close> and \<^verbatim>\<open>pw\<close> followed by a zero byte derive the
  same key: after \<open>Stow\<close> with the first, \<open>Fetch\<close> with the second returns the value
  (lemma \<open>Fetch_zero_byte_password\<close>, for every cipher that opens what it sealed).
\<close>

theorem wrong_password_counterexample:
  "''pw'' @ [CHR 0x00] \<noteq> ''pw''
   \<and> (case Stow plain_crypto fixed_world open_depot ''k'' ''secret'' (Some ''pw'') of
      Inl err \<Rightarrow> False
    | Inr db' \<Rightarrow>
        Fetch plain_crypto db' ''k'' (Some (''pw'' @ [CHR 0x00])) = Returns (Inr ''secret'')
        \<and> Fetch_r1 plain_crypto db' ''k'' (Some (''pw'' @ [CHR 0x00])) = Returns (Inr ''secret''))"
proof -
  obtain db' where s: "Stow plain_crypto fixed_world open_depot ''k'' ''secret'' (Some ''pw'') = Inr db'"
    using Stow_sealed_open_depot by blast
  have "Fetch plain_crypto db' ''k'' (Some (''pw'' @ [CHR 0x00])) = Returns (Inr ''secret'')"
    using plain_crypto_correct _ s by (rule Fetch_zero_byte_password) simp
  then show ?thesis by (simp add: s Fetch_r1_present)
qed

text \<open>
  C5, amended. After \<open>Stow k v p\<close> with a password \<open>p\<close> that is present has succeeded,
  \<open>Fetch k p'\<close> with a password \<open>p'\<close> that is present fails with the error that wraps
  \<open>ErrBadPassword\<close> exactly when the authenticated \<^verbatim>\<open>Open\<close>, under the key derived from
  \<open>p'\<close>, rejects the stored ciphertext, and otherwise returns what \<^verbatim>\<open>Open\<close> returns. It
  has no other failure, and it fails only for a \<open>p'\<close> whose derived key differs from that
  of \<open>p\<close>: with the same derived key it returns \<open>v\<close>. Both revisions of \<open>Fetch\<close> agree.
  Needed of the libraries: the key derivation returns the 32 bytes asked for, and
  \<^verbatim>\<open>Open\<close> opens what \<^verbatim>\<open>Seal\<close> sealed under the same key.
\<close>

theorem wrong_password_rejected:
  assumes "kdf_sized cr" and "aead_correct cr" and "Stow cr w db k v (Some p) = Inr db'"
  shows "(\<exists>n. rand_Reader w 12 = Some n
            \<and> Fetch cr db' k (Some p') =
                (case gcm_Open cr (pbkdf2_Key cr p' (salt db) 4096 32) n
                        (gcm_Seal cr (pbkdf2_Key cr p (salt db) 4096 32) n v) of
                   None \<Rightarrow> Returns (Inl (Errorf ''cannot decrypt data'' ErrBadPassword))
                 | Some plaintext \<Rightarrow> Returns (Inr plaintext)))
     \<and> errors_Is (Errorf ''cannot decrypt data'' ErrBadPassword) ErrBadPassword
     \<and> (pbkdf2_Key cr p' (salt db) 4096 32 = pbkdf2_Key cr p (salt db) 4096 32 \<longrightarrow>
            Fetch cr db' k (Some p') = Returns (Inr v))
     \<and> (\<forall>e. Fetch cr db' k (Some p') = Returns (Inl e) \<longrightarrow>
            e = Errorf ''cannot decrypt data'' ErrBadPassword
            \<and> pbkdf2_Key cr p' (salt db) 4096 32 \<noteq> pbkdf2_Key cr p (salt db) 4096 32)
     \<and> (\<forall>m. Fetch cr db' k (Some p') \<noteq> Panics m)
     \<and> Fetch_r1 cr db' k (Some p') = Fetch cr db' k (Some p')"
proof -
  from Fetch_by_Open [OF assms(1,3), of p'] obtain n where rd: "rand_Reader w 12 = Some n"
    and f: "Fetch cr db' k (Some p') =
         (case gcm_Open cr (pbkdf2_Key cr p' (salt db) 4096 32) n
                 (gcm_Seal cr (pbkdf2_Key cr p (salt db) 4096 32) n v) of
            None \<Rightarrow> Returns (Inl (Errorf ''cannot decrypt data'' ErrBadPassword))
          | Some plaintext \<Rightarrow> Returns (Inr plaintext))"
    by blast
  have same: "pbkdf2_Key cr p' (salt db) 4096 32 = pbkdf2_Key cr p (salt db) 4096 32 \<longrightarrow>
      Fetch cr db' k (Some p') = Returns (Inr v)"
    using Fetch_same_key [OF assms(2,3)] by blast
  have only: "\<forall>e. Fetch cr db' k (Some p') = Returns (Inl e) \<longrightarrow>
      e = Errorf ''cannot decrypt data'' ErrBadPassword
      \<and> pbkdf2_Key cr p' (salt db) 4096 32 \<noteq> pbkdf2_Key cr p (salt db) 4096 32"
  proof (intro allI impI conjI)
    fix e
    assume e: "Fetch cr db' k (Some p') = Returns (Inl e)"
    with f show "e = Errorf ''cannot decrypt data'' ErrBadPassword"
      by (simp split: option.splits)
    from e same show "pbkdf2_Key cr p' (salt db) 4096 32 \<noteq> pbkdf2_Key cr p (salt db) 4096 32"
      by auto
  qed
  have returns: "\<forall>m. Fetch cr db' k (Some p') \<noteq> Panics m"
    using f by (simp split: option.splits)
  from rd f same only returns show ?thesis
    by (simp add: Fetch_r1_present)
qed

theorem wrong_password_rejected_witness:
  "case Stow plain_crypto fixed_world open_depot ''ciphertext'' ''testing123'' (Some ''goodpassword'') of
     Inl err \<Rightarrow> False
   | Inr db' \<Rightarrow>
       Fetch plain_crypto db' ''ciphertext'' (Some ''badpassword'')
         = Returns (Inl (Errorf ''cannot decrypt data'' ErrBadPassword))
       \<and> Fetch plain_crypto db' ''ciphertext'' (Some ''goodpassword'') = Returns (Inr ''testing123'')"
proof -
  let ?good = "pbkdf2_Key plain_crypto ''goodpassword'' (salt open_depot) 4096 32"
  let ?bad = "pbkdf2_Key plain_crypto ''badpassword'' (salt open_depot) 4096 32"
  obtain db' where s: "Stow plain_crypto fixed_world open_depot ''ciphertext'' ''testing123''
      (Some ''goodpassword'') = Inr db'"
    using Stow_sealed_open_depot by blast
  note th = wrong_password_rejected [OF plain_crypto_sized plain_crypto_correct s]
  have lg: "length ?good = 32" and lb: "length ?bad = 32"
    using plain_crypto_sized by (simp_all add: pbkdf2_Key_length)
  have "hd ?good = CHR ''g''" and "hd ?bad = CHR ''b''"
    by (simp_all add: pbkdf2_Key_def hmac_New_def plain_crypto_def)
  then have ne: "?bad \<noteq> ?good" by auto
  from th [of "''badpassword''"] obtain n where
    f: "Fetch plain_crypto db' ''ciphertext'' (Some ''badpassword'') =
         (case gcm_Open plain_crypto ?bad n (gcm_Seal plain_crypto ?good n ''testing123'') of
            None \<Rightarrow> Returns (Inl (Errorf ''cannot decrypt data'' ErrBadPassword))
          | Some plaintext \<Rightarrow> Returns (Inr plaintext))"
    by blast
  have "gcm_Open plain_crypto ?bad n (gcm_Seal plain_crypto ?good n ''testing123'') = None"
    using ne lg lb by (simp add: plain_crypto_def)
  with f have a: "Fetch plain_crypto db' ''ciphertext'' (Some ''badpassword'')
         = Returns (Inl (Errorf ''cannot decrypt data'' ErrBadPassword))"
    by simp
  from th [of "''goodpassword''"]
  have b: "Fetch plain_crypto db' ''ciphertext'' (Some ''goodpassword'') = Returns (Inr ''testing123'')"
    by simp
  from a b show ?thesis by (simp add: s)
qed

section \<open>Damaged records\<close>

lemma damaged_value: "DecodeString ''QUJD*A=='' = Inl CorruptInputError"
  by (simp add: DecodeString_def decodeMap_def encodeStd_def padChar_def)

lemma Fetch_panics_on_nonce_length:
  assumes "kdf_sized cr" and "lookup db k = Some r" and "nonce r = Some n"
    and "length n \<noteq> 12" and "DecodeString (val r) = Inr c"
  shows "Fetch cr db k (Some p) = Panics ''crypto/cipher: incorrect nonce length given to GCM''"
  by (simp add: Fetch_sealed_row [OF assms(2,3)] assms(5) decrypt_panics [OF assms(1,4)])

text \<open>
  C6, as stated, fails for a stored value that is damaged so that it is no longer
  base64: \<open>Fetch\<close> with a password returns the decoder's error under the same message,
  an error in which \<open>ErrBadPassword\<close> does not occur. So one kind of damage to the stored
  value is told apart from a wrong password.
\<close>

theorem damaged_value_counterexample:
  "Fetch plain_crypto sample_depot ''damaged'' (Some ''pw'')
     = Returns (Inl (Errorf ''cannot decrypt data'' CorruptInputError))
   \<and> Fetch_r1 plain_crypto sample_depot ''damaged'' (Some ''pw'')
     = Returns (Inl (Errorf ''cannot decrypt data'' CorruptInputError))
   \<and> \<not> errors_Is (Errorf ''cannot decrypt data'' CorruptInputError) ErrBadPassword"
  by (simp add: Fetch_r1_present Fetch_sealed_row [OF sample_damaged] damaged_value)

text \<open>
  C6, amended. When \<open>Fetch\<close> reaches an encrypted record whose stored nonce has 12 bytes,
  as every nonce that \<open>Stow\<close> writes has, with a password that is not \<^verbatim>\<open>nil\<close>: if the
  stored value decodes as base64, every failure of the authenticated \<^verbatim>\<open>Open\<close>, whatever
  made it fail (the password, the ciphertext or the bytes of the nonce), is returned as
  the one error that wraps \<open>ErrBadPassword\<close>; a stored value that does not decode is
  returned as a wrapped \<open>CorruptInputError\<close>, which is not \<open>ErrBadPassword\<close>. These are
  the only two errors of \<open>Fetch\<close> on such a record, it does not panic, and both revisions
  of \<open>Fetch\<close> agree on it. Nothing is said of a stored nonce of another length.
\<close>

theorem open_failure_is_bad_password:
  assumes "kdf_sized cr" and "lookup db k = Some r" and "nonce r = Some n" and "length n = 12"
  shows "(\<forall>c. DecodeString (val r) = Inr c
            \<and> gcm_Open cr (pbkdf2_Key cr p (salt db) 4096 32) n c = None \<longrightarrow>
            Fetch cr db k (Some p) = Returns (Inl (Errorf ''cannot decrypt data'' ErrBadPassword)))
     \<and> (\<forall>e. DecodeString (val r) = Inl e \<longrightarrow>
            Fetch cr db k (Some p) = Returns (Inl (Errorf ''cannot decrypt data'' CorruptInputError))
            \<and> \<not> errors_Is (Errorf ''cannot decrypt data'' CorruptInputError) ErrBadPassword)
     \<and> (\<forall>e. Fetch cr db k (Some p) = Returns (Inl e) \<longrightarrow>
            e = Errorf ''cannot decrypt data'' ErrBadPassword
            \<or> e = Errorf ''cannot decrypt data'' CorruptInputError)
     \<and> (\<forall>m. Fetch cr db k (Some p) \<noteq> Panics m)
     \<and> Fetch_r1 cr db k (Some p) = Fetch cr db k (Some p)"
proof (intro conjI allI impI)
  fix c
  assume "DecodeString (val r) = Inr c
    \<and> gcm_Open cr (pbkdf2_Key cr p (salt db) 4096 32) n c = None"
  then show "Fetch cr db k (Some p) = Returns (Inl (Errorf ''cannot decrypt data'' ErrBadPassword))"
    by (simp add: Fetch_sealed_row [OF assms(2,3)] decrypt_result [OF assms(1,4)])
next
  fix e
  assume d: "DecodeString (val r) = Inl e"
  then have "e = CorruptInputError" by (rule DecodeString_error)
  with d show "Fetch cr db k (Some p)
      = Returns (Inl (Errorf ''cannot decrypt data'' CorruptInputError))"
    by (simp add: Fetch_sealed_row [OF assms(2,3)])
  show "\<not> errors_Is (Errorf ''cannot decrypt data'' CorruptInputError) ErrBadPassword"
    by simp
next
  fix e
  assume f: "Fetch cr db k (Some p) = Returns (Inl e)"
  show "e = Errorf ''cannot decrypt data'' ErrBadPassword
      \<or> e = Errorf ''cannot decrypt data'' CorruptInputError"
  proof (cases "DecodeString (val r)")
    case (Inl e')
    then have "e' = CorruptInputError" by (rule DecodeString_error)
    with Inl f show ?thesis by (simp add: Fetch_sealed_row [OF assms(2,3)])
  next
    case (Inr c)
    with f show ?thesis
      by (simp add: Fetch_sealed_row [OF assms(2,3)] decrypt_result [OF assms(1,4)]
          split: option.splits)
  qed
next
  fix m
  show "Fetch cr db k (Some p) \<noteq> Panics m"
    by (simp add: Fetch_sealed_row [OF assms(2,3)] decrypt_result [OF assms(1,4)]
        split: sum.splits option.splits)
next
  show "Fetch_r1 cr db k (Some p) = Fetch cr db k (Some p)"
    by (rule Fetch_r1_present)
qed

theorem open_failure_is_bad_password_witness:
  "Fetch plain_crypto sample_depot ''ciphertext'' (Some ''pw'')
     = Returns (Inl (Errorf ''cannot decrypt data'' ErrBadPassword))
   \<and> Fetch plain_crypto sample_depot ''damaged'' (Some ''pw'')
     = Returns (Inl (Errorf ''cannot decrypt data'' CorruptInputError))"
proof -
  let ?K = "pbkdf2_Key plain_crypto ''pw'' (salt sample_depot) 4096 32"
  have "EncodeToString ''ABC'' = ''QUJD''"
    by (simp add: quantum_def sextet_def encode_def encodeStd_def)
  then have dq: "DecodeString ''QUJD'' = Inr ''ABC''"
    using DecodeString_EncodeToString [of "''ABC''"] by simp
  have l: "length ?K = 32"
    using plain_crypto_sized by (rule pbkdf2_Key_length)
  have ne: "''ABC'' \<noteq> ?K @ replicate 12 (CHR ''r'')"
  proof
    assume "''ABC'' = ?K @ replicate 12 (CHR ''r'')"
    then have "length ''ABC'' = length (?K @ replicate 12 (CHR ''r''))"
      by (rule arg_cong)
    with l show False by simp
  qed
  have "take (length ?K + length (replicate 12 (CHR ''r''))) ''ABC'' = ''ABC''"
    using l by simp
  with ne have op: "gcm_Open plain_crypto ?K (replicate 12 (CHR ''r'')) ''ABC'' = None"
    by (simp add: plain_crypto_def)
  note th = open_failure_is_bad_password [OF plain_crypto_sized sample_ciphertext, of
      "replicate 12 (CHR ''r'')" "''pw''"]
  note th2 = open_failure_is_bad_password [OF plain_crypto_sized sample_damaged, of
      "replicate 12 (CHR ''q'')" "''pw''"]
  from th dq op have a: "Fetch plain_crypto sample_depot ''ciphertext'' (Some ''pw'')
     = Returns (Inl (Errorf ''cannot decrypt data'' ErrBadPassword))"
    by simp
  from th2 damaged_value have b: "Fetch plain_crypto sample_depot ''damaged'' (Some ''pw'')
     = Returns (Inl (Errorf ''cannot decrypt data'' CorruptInputError))"
    by simp
  from a b show ?thesis by simp
qed

end
